theory Spec2Isabelle
  imports Complex_Main "HOL-Library.Monad_Syntax"
begin

section \<open>The structure graph of the tensegrity library\<close>

text \<open>
  \<^verbatim>\<open>VerticalSpineModel.cpp\<close> builds its spine through the classes \<^verbatim>\<open>tgStructure\<close>,
  \<^verbatim>\<open>tgNodes\<close>, \<^verbatim>\<open>tgPair\<close> and the helper \<^verbatim>\<open>tgString\<close>, whose sources lie
  outside the file; this section models the operations the file calls. Coordinates
  are \<^verbatim>\<open>double\<close>/\<^verbatim>\<open>btScalar\<close> values in the program and exact reals here, so
  rounding, infinities and NaN are outside the model.
\<close>

type_synonym btVector3 = "real \<times> real \<times> real"

definition vadd :: "btVector3 \<Rightarrow> btVector3 \<Rightarrow> btVector3" where
  "vadd a b = (case a of (ax, ay, az) \<Rightarrow> case b of (bx, by, bz) \<Rightarrow> (ax + bx, ay + by, az + bz))"

definition smul :: "real \<Rightarrow> btVector3 \<Rightarrow> btVector3" where
  "smul k v = (case v of (x, y, z) \<Rightarrow> (k * x, k * y, k * z))"

text \<open>
  Modelled from the spec: \<^verbatim>\<open>tgPair\<close> is missing. An edge of the structure graph joins
  two nodes (3D points) and carries a tag string.
\<close>

record tgPair =
  pfrom :: btVector3
  pto :: btVector3
  ptags :: string

text \<open>
  Modelled from the spec: \<^verbatim>\<open>tgStructure\<close> is missing. A structure has tags, nodes,
  pairs and child structures. The children are held as pointers
  (\<^verbatim>\<open>std::vector<tgStructure*>\<close> in \<^verbatim>\<open>addMuscles\<close>), so they are addresses into a
  store of heap-allocated structures.
\<close>

type_synonym addr = nat

record tgStructure =
  m_tags :: "string list"
  m_nodes :: "btVector3 list"
  m_pairs :: "tgPair list"
  m_children :: "addr list"

type_synonym heap = "tgStructure list"

definition empty_structure :: tgStructure where
  "empty_structure = \<lparr>m_tags = [], m_nodes = [], m_pairs = [], m_children = []\<rparr>"

text \<open>\<^verbatim>\<open>new tgStructure(...)\<close>: the next free address is the size of the store.\<close>

definition new :: "tgStructure \<Rightarrow> heap \<Rightarrow> addr \<times> heap" where
  "new s h = (length h, h @ [s])"

text \<open>Following a pointer; a pointer to no object has no result.\<close>

definition deref :: "heap \<Rightarrow> addr \<Rightarrow> tgStructure option" where
  "deref h p = (if p < length h then Some (h ! p) else None)"

text \<open>\<^verbatim>\<open>p->f(...)\<close> for a member function that changes the object \<open>p\<close> points to.\<close>

definition modify :: "addr \<Rightarrow> (tgStructure \<Rightarrow> tgStructure) \<Rightarrow> heap \<Rightarrow> heap option" where
  "modify p f h = (case deref h p of None \<Rightarrow> None | Some s \<Rightarrow> Some (h[p := f s]))"

text \<open>
  Modelled from the spec: \<^verbatim>\<open>tgString(s, i)\<close> is missing. It is the string \<open>s\<close>
  followed by the decimal digits of \<open>i\<close>; the numbers it is given here are segment
  indices, taken as natural numbers.
\<close>

definition digit :: "nat \<Rightarrow> char" where
  "digit d = ''0123456789'' ! d"

fun decimal :: "nat \<Rightarrow> string" where
  "decimal n = (if n < 10 then [digit n] else decimal (n div 10) @ [digit (n mod 10)])"

declare decimal.simps [simp del]

definition tgString :: "string \<Rightarrow> nat \<Rightarrow> string" where
  "tgString s i = s @ decimal i"

text \<open>
  Modelled from the spec: the tag handling of \<^verbatim>\<open>tgTaggable\<close> is missing. A tag string
  holds tags separated by spaces: \<^verbatim>\<open>"vertical muscle a"\<close> carries the three tags
  \<^verbatim>\<open>vertical\<close>, \<^verbatim>\<open>muscle\<close> and \<^verbatim>\<open>a\<close>. \<open>tag_split w s\<close> reads \<open>s\<close> with the
  word \<open>w\<close> in progress.
\<close>

fun tag_split :: "string \<Rightarrow> string \<Rightarrow> string list" where
  "tag_split w [] = (if w = [] then [] else [w])"
| "tag_split w (ch # cs) =
     (if ch = CHR '' '' then (if w = [] then [] else [w]) @ tag_split [] cs
      else tag_split (w @ [ch]) cs)"

definition has_tag :: "string \<Rightarrow> string \<Rightarrow> bool" where
  "has_tag t s = (t \<in> set (tag_split [] s))"

definition addTags :: "string \<Rightarrow> tgStructure \<Rightarrow> tgStructure" where
  "addTags t s = s\<lparr>m_tags := m_tags s @ tag_split [] t\<rparr>"

text \<open>Modelled from the spec: \<^verbatim>\<open>tgStructure::addNode(x, y, z)\<close> appends a node.\<close>

definition addNode :: "tgStructure \<Rightarrow> real \<Rightarrow> real \<Rightarrow> real \<Rightarrow> tgStructure" where
  "addNode s x y z = s\<lparr>m_nodes := m_nodes s @ [(x, y, z)]\<rparr>"

text \<open>
  Modelled from the spec: \<^verbatim>\<open>tgNodes::operator[]\<close> is a checked access; an index with
  no node has no result (the library raises).
\<close>

definition node_at :: "btVector3 list \<Rightarrow> nat \<Rightarrow> btVector3 option" where
  "node_at ns i = (if i < length ns then Some (ns ! i) else None)"

text \<open>
  Modelled from the spec: \<^verbatim>\<open>tgStructure::addPair\<close> appends an edge with its tag
  string, either between two given points or between two nodes given by index.
\<close>

definition addPairV :: "tgStructure \<Rightarrow> btVector3 \<Rightarrow> btVector3 \<Rightarrow> string \<Rightarrow> tgStructure" where
  "addPairV s a b t = s\<lparr>m_pairs := m_pairs s @ [\<lparr>pfrom = a, pto = b, ptags = t\<rparr>]\<rparr>"

definition addPair :: "tgStructure \<Rightarrow> nat \<Rightarrow> nat \<Rightarrow> string \<Rightarrow> tgStructure option" where
  "addPair s i j t =
     do {
       a \<leftarrow> node_at (m_nodes s) i;
       b \<leftarrow> node_at (m_nodes s) j;
       Some (addPairV s a b t)
     }"

text \<open>Modelled from the spec: \<^verbatim>\<open>tgStructure::addChild\<close> stores the pointer it is given.\<close>

definition addChild :: "tgStructure \<Rightarrow> addr \<Rightarrow> tgStructure" where
  "addChild s p = s\<lparr>m_children := m_children s @ [p]\<rparr>"

text \<open>
  Modelled from the spec: \<^verbatim>\<open>tgStructure::move(offset)\<close> translates every node and
  both ends of every pair of the structure, and then every child structure in the same
  way. \<open>move_work\<close> moves the structures on a work list of pointers, children before
  the rest of the list. Its result is \<open>None\<close> when a pointer points to no object, and
  also when the child pointers form a cycle, on which the recursion does not return.
\<close>

definition move_pair :: "btVector3 \<Rightarrow> tgPair \<Rightarrow> tgPair" where
  "move_pair off p = p\<lparr>pfrom := vadd (pfrom p) off, pto := vadd (pto p) off\<rparr>"

definition move_local :: "btVector3 \<Rightarrow> tgStructure \<Rightarrow> tgStructure" where
  "move_local off s =
     s\<lparr>m_nodes := map (\<lambda>n. vadd n off) (m_nodes s), m_pairs := map (move_pair off) (m_pairs s)\<rparr>"

partial_function (option) move_work :: "btVector3 \<Rightarrow> heap \<Rightarrow> addr list \<Rightarrow> heap option" where
  "move_work off h ps =
     (case ps of
        [] \<Rightarrow> Some h
      | p # rest \<Rightarrow>
          (case deref h p of
             None \<Rightarrow> None
           | Some s \<Rightarrow> move_work off (h[p := move_local off s]) (m_children s @ rest)))"

declare move_work.simps [code]

text \<open>\<open>move\<close> is \<^verbatim>\<open>s.move(offset)\<close> for a local object, \<open>move_at\<close> is \<^verbatim>\<open>p->move(offset)\<close>.\<close>

definition move :: "tgStructure \<Rightarrow> btVector3 \<Rightarrow> heap \<Rightarrow> (tgStructure \<times> heap) option" where
  "move s off h =
     do {
       h' \<leftarrow> move_work off h (m_children s);
       Some (move_local off s, h')
     }"

definition move_at :: "addr \<Rightarrow> btVector3 \<Rightarrow> heap \<Rightarrow> heap option" where
  "move_at p off h = move_work off h [p]"

text \<open>
  Modelled from the spec: the copy constructor of \<^verbatim>\<open>tgStructure\<close> copies tags, nodes
  and pairs and makes a fresh copy of every child. \<open>copy_list\<close> copies the structures
  behind a list of pointers and returns the pointers to the copies; \<open>None\<close> is as for
  \<open>move_work\<close>.
\<close>

partial_function (option) copy_list :: "heap \<Rightarrow> addr list \<Rightarrow> (addr list \<times> heap) option" where
  "copy_list h ps =
     (case ps of
        [] \<Rightarrow> Some ([], h)
      | p # rest \<Rightarrow>
          do {
            s \<leftarrow> deref h p;
            (cs, h1) \<leftarrow> copy_list h (m_children s);
            (q, h2) \<leftarrow> Some (new (s\<lparr>m_children := cs\<rparr>) h1);
            (qs, h3) \<leftarrow> copy_list h2 rest;
            Some (q # qs, h3)
          })"

declare copy_list.simps [code]

definition copy_structure :: "tgStructure \<Rightarrow> heap \<Rightarrow> (tgStructure \<times> heap) option" where
  "copy_structure s h =
     do {
       (cs, h') \<leftarrow> copy_list h (m_children s);
       Some (s\<lparr>m_children := cs\<rparr>, h')
     }"

section \<open>The configuration block\<close>

text \<open>
  The anonymous namespace of \<^verbatim>\<open>VerticalSpineModel.cpp\<close>. The initialiser of
  \<^verbatim>\<open>height\<close> is \<^verbatim>\<open>tgUtil::round(c.edge / std::sqrt(2.0))\<close>; \<^verbatim>\<open>tgUtil::round\<close> is
  defined elsewhere, so the value it yields is the parameter \<open>ht\<close> of the
  configuration and of every function that reads it.
\<close>

record ConfigSpine =
  vertebra_separation :: real

definition configSpine :: ConfigSpine where
  "configSpine = \<lparr>vertebra_separation = 7.5\<rparr>"

record Config =
  densityA :: real
  densityB :: real
  radius :: real
  edge :: real
  height :: real
  stiffness :: real
  damping :: real
  friction :: real
  rollFriction :: real
  restitution :: real
  pretension :: real
  hist :: bool
  maxTens :: real
  targetVelocity :: real

definition c :: "real \<Rightarrow> Config" where
  "c ht =
     \<lparr>densityA = 0.026,
      densityB = 0.0,
      radius = 0.5,
      edge = 20.0,
      height = ht,
      stiffness = 1000.0,
      damping = 10.0,
      friction = 0.99,
      rollFriction = 0.01,
      restitution = 0.0,
      pretension = 2452.0,
      hist = False,
      maxTens = 100000,
      targetVelocity = 10000\<rparr>"

section \<open>Building one vertebra\<close>

definition addNodes :: "real \<Rightarrow> tgStructure \<Rightarrow> real \<Rightarrow> real \<Rightarrow> tgStructure" where
  "addNodes ht vertebra edge_arg height_arg =
     (let vertebra = addNode vertebra (edge (c ht) / 2.0) 0 0;
          vertebra = addNode vertebra (- edge (c ht) / 2.0) 0 0;
          vertebra = addNode vertebra 0 (height (c ht)) (- edge_arg / 2.0);
          vertebra = addNode vertebra 0 (height (c ht)) (edge_arg / 2.0);
          vertebra = addNode vertebra 0 (height (c ht) / 2) 0
      in vertebra)"

definition addPairs :: "tgStructure \<Rightarrow> tgStructure option" where
  "addPairs vertebra =
     do {
       vertebra \<leftarrow> addPair vertebra 0 4 ''rod'';
       vertebra \<leftarrow> addPair vertebra 1 4 ''rod'';
       vertebra \<leftarrow> addPair vertebra 2 4 ''rod'';
       vertebra \<leftarrow> addPair vertebra 3 4 ''rod'';
       Some vertebra
     }"

definition addPairsB :: "tgStructure \<Rightarrow> tgStructure option" where
  "addPairsB vertebra =
     do {
       vertebra \<leftarrow> addPair vertebra 0 4 ''rodB'';
       vertebra \<leftarrow> addPair vertebra 1 4 ''rodB'';
       vertebra \<leftarrow> addPair vertebra 2 4 ''rodB'';
       vertebra \<leftarrow> addPair vertebra 3 4 ''rodB'';
       Some vertebra
     }"

section \<open>Assembling the spine\<close>

text \<open>
  \<^verbatim>\<open>new tgStructure(orig)\<close>: the copy is made and placed at a fresh address.
\<close>

definition new_copy :: "tgStructure \<Rightarrow> heap \<Rightarrow> (addr \<times> heap) option" where
  "new_copy orig h =
     do {
       (s, h1) \<leftarrow> copy_structure orig h;
       Some (new s h1)
     }"

text \<open>
  The loop of \<^verbatim>\<open>addSegments\<close>, from the value \<open>i\<close> of its counter. The counter is
  a \<^verbatim>\<open>size_t\<close> below \<open>segment_count\<close>, so \<open>i + 1\<close> does not wrap.
\<close>

function addSegments_loop ::
  "tgStructure \<Rightarrow> tgStructure \<Rightarrow> btVector3 \<Rightarrow> nat \<Rightarrow> nat \<Rightarrow> heap \<Rightarrow> (tgStructure \<times> heap) option" where
  "addSegments_loop spine vertebra offset segment_count i h =
     (if i < segment_count then
        do {
          (new_vertebra, h) \<leftarrow> new_copy vertebra h;
          h \<leftarrow> modify new_vertebra (addTags (tgString ''segment'' (i + 1))) h;
          h \<leftarrow> move_at new_vertebra (smul (real (i + 1)) offset) h;
          addSegments_loop (addChild spine new_vertebra) vertebra offset segment_count (i + 1) h
        }
      else Some (spine, h))"
  by pat_completeness auto
termination
  by (relation "measure (\<lambda>(spine, vertebra, offset, segment_count, i, h). segment_count - i)") auto

declare addSegments_loop.simps [simp del]

definition addSegments ::
  "tgStructure \<Rightarrow> tgStructure \<Rightarrow> real \<Rightarrow> nat \<Rightarrow> heap \<Rightarrow> (tgStructure \<times> heap) option" where
  "addSegments spine vertebra edge_arg segment_count h =
     (let offset = (0, vertebra_separation configSpine, 0)
      in addSegments_loop spine vertebra offset segment_count 1 h)"

text \<open>\<^verbatim>\<open>spine.addPair(n0[i], n1[j], tags)\<close> with its two checked node accesses.\<close>

definition addPairN ::
  "tgStructure \<Rightarrow> btVector3 list \<Rightarrow> nat \<Rightarrow> btVector3 list \<Rightarrow> nat \<Rightarrow> string \<Rightarrow> tgStructure option" where
  "addPairN spine n0 i n1 j t =
     do {
       a \<leftarrow> node_at n0 i;
       b \<leftarrow> node_at n1 j;
       Some (addPairV spine a b t)
     }"

text \<open>One pass of the loop body of \<^verbatim>\<open>addMuscles\<close>, for the counter value \<open>i\<close>.\<close>

definition addMuscles_body :: "tgStructure \<Rightarrow> addr list \<Rightarrow> nat \<Rightarrow> heap \<Rightarrow> tgStructure option" where
  "addMuscles_body spine children i h =
     do {
       c0 \<leftarrow> deref h (children ! (i - 1));
       c1 \<leftarrow> deref h (children ! i);
       let n0 = m_nodes c0;
       let n1 = m_nodes c1;
       spine \<leftarrow> addPairN spine n0 0 n1 0 ''vertical muscle a'';
       spine \<leftarrow> addPairN spine n0 1 n1 1 ''vertical muscle b'';
       spine \<leftarrow> addPairN spine n0 2 n1 2 ''vertical muscle c'';
       spine \<leftarrow> addPairN spine n0 3 n1 3 ''vertical muscle d'';
       spine \<leftarrow> addPairN spine n0 2 n1 1 (tgString ''saddle muscle seg'' (i - 1));
       spine \<leftarrow> addPairN spine n0 3 n1 1 (tgString ''saddle muscle seg'' (i - 1));
       spine \<leftarrow> addPairN spine n0 2 n1 0 (tgString ''saddle muscle seg'' (i - 1));
       spine \<leftarrow> addPairN spine n0 3 n1 0 (tgString ''saddle muscle seg'' (i - 1));
       Some spine
     }"

function addMuscles_loop :: "tgStructure \<Rightarrow> addr list \<Rightarrow> nat \<Rightarrow> heap \<Rightarrow> tgStructure option" where
  "addMuscles_loop spine children i h =
     (if i < length children then
        do {
          spine \<leftarrow> addMuscles_body spine children i h;
          addMuscles_loop spine children (i + 1) h
        }
      else Some spine)"
  by pat_completeness auto
termination
  by (relation "measure (\<lambda>(spine, children, i, h). length children - i)") auto

declare addMuscles_loop.simps [simp del]

definition addMuscles :: "tgStructure \<Rightarrow> heap \<Rightarrow> tgStructure option" where
  "addMuscles spine h = (let children = m_children spine in addMuscles_loop spine children 1 h)"

text \<open>
  The part of \<^verbatim>\<open>setup\<close> that assembles the structure graph, up to the call of
  \<^verbatim>\<open>addMuscles\<close>. \<open>tB\<close> is stored in the spine before it is tagged; the tag reaches
  the spine's child through the shared pointer.
\<close>

definition setup_spine :: "real \<Rightarrow> nat \<Rightarrow> heap \<Rightarrow> (tgStructure \<times> heap) option" where
  "setup_spine ht m_segments h =
     do {
       let tetraB = empty_structure;
       let tetraB = addNodes ht tetraB (edge (c ht)) (height (c ht));
       tetraB \<leftarrow> addPairsB tetraB;
       (tetraB, h) \<leftarrow> move tetraB (0.0, 2, 0) h;
       let spine = empty_structure;
       (tB, h) \<leftarrow> new_copy tetraB h;
       let spine = addChild spine tB;
       h \<leftarrow> modify tB (addTags (tgString ''segment'' 1)) h;
       let tetra = empty_structure;
       let tetra = addNodes ht tetra (edge (c ht)) (height (c ht));
       tetra \<leftarrow> addPairs tetra;
       (tetra, h) \<leftarrow> move tetra (0.0, - 6, 0) h;
       (spine, h) \<leftarrow> addSegments spine tetra (edge (c ht)) m_segments h;
       spine \<leftarrow> addMuscles spine h;
       Some (spine, h)
     }"

section \<open>The model object\<close>

text \<open>
  The physics engine and the base class \<^verbatim>\<open>tgModel\<close> are external. What the file
  calls on them is a record of functions over an engine state \<open>'m\<close>, a world \<open>'w\<close>
  and actuator handles \<open>'a\<close>:
  \<^item> \<open>buildInto\<close>: \<^verbatim>\<open>tgStructureInfo(spine, spec).buildInto(*this, world)\<close>;
  \<^item> \<open>find_actuators\<close>: \<^verbatim>\<open>model.find<tgSpringCableActuator>(tag)\<close>;
  \<^item> \<open>filter_actuators\<close>: \<^verbatim>\<open>tgCast::filter<tgModel, tgSpringCableActuator>(getDescendants())\<close>;
  \<^item> \<open>notifySetup\<close>, \<open>tgModel_setup\<close>, \<open>notifyStep\<close>, \<open>tgModel_step\<close>: the calls of
    the same names.
\<close>

datatype builder =
  tgRodInfo real real real real real
| tgBasicActuatorInfo real real real bool real real

type_synonym tgBuildSpec = "(string \<times> builder) list"

record ('a, 'm, 'w) Library =
  buildInto :: "tgStructure \<Rightarrow> heap \<Rightarrow> tgBuildSpec \<Rightarrow> 'w \<Rightarrow> 'm \<Rightarrow> 'm"
  find_actuators :: "'m \<Rightarrow> string \<Rightarrow> 'a list"
  filter_actuators :: "'m \<Rightarrow> 'a list"
  notifySetup :: "'m \<Rightarrow> 'm"
  tgModel_setup :: "'w \<Rightarrow> 'm \<Rightarrow> 'm"
  notifyStep :: "real \<Rightarrow> 'm \<Rightarrow> 'm"
  tgModel_step :: "real \<Rightarrow> 'm \<Rightarrow> 'm"

datatype error = invalid_argument string

type_synonym 'a MuscleMap = "string \<rightharpoonup> 'a list"

record ('a, 'm) VerticalSpineModel =
  m_segments :: nat
  allMuscles :: "'a list"
  muscleMap :: "'a MuscleMap"
  tgModel :: 'm

text \<open>The single constructor; \<open>m0\<close> is the freshly constructed base object.\<close>

definition VerticalSpineModel_new :: "'m \<Rightarrow> nat \<Rightarrow> ('a, 'm) VerticalSpineModel" where
  "VerticalSpineModel_new m0 segments =
     \<lparr>m_segments = segments, allMuscles = [], muscleMap = Map.empty, tgModel = m0\<rparr>"

function mapMuscles_loop ::
  "('a, 'm, 'w) Library \<Rightarrow> 'a MuscleMap \<Rightarrow> 'm \<Rightarrow> nat \<Rightarrow> nat \<Rightarrow> 'a MuscleMap" where
  "mapMuscles_loop L mm model segmentCount i =
     (if i < segmentCount then
        mapMuscles_loop L
          (mm(tgString ''saddle'' (i - 1) \<mapsto>
                find_actuators L model (tgString ''saddle muscle seg'' (i - 1))))
          model segmentCount (i + 1)
      else mm)"
  by pat_completeness auto
termination
  by (relation "measure (\<lambda>(L, mm, model, segmentCount, i). segmentCount - i)") auto

declare mapMuscles_loop.simps [simp del]

definition mapMuscles ::
  "('a, 'm, 'w) Library \<Rightarrow> 'a MuscleMap \<Rightarrow> 'm \<Rightarrow> nat \<Rightarrow> 'a MuscleMap" where
  "mapMuscles L mm model segmentCount =
     (let mm = mm(''vertical a'' \<mapsto> find_actuators L model ''vertical muscle a'');
          mm = mm(''vertical b'' \<mapsto> find_actuators L model ''vertical muscle b'');
          mm = mm(''vertical c'' \<mapsto> find_actuators L model ''vertical muscle c'');
          mm = mm(''vertical d'' \<mapsto> find_actuators L model ''vertical muscle d'')
      in mapMuscles_loop L mm model segmentCount 1)"

text \<open>
  \<^verbatim>\<open>setup\<close> (\<open>setup_model\<close> here, as \<open>setup\<close> is a keyword). \<open>buildSpec\<close> is
  the \<^verbatim>\<open>tgBuildSpec spec\<close> it fills with the builders for the tags \<^verbatim>\<open>rod\<close>,
  \<^verbatim>\<open>rodB\<close> and \<^verbatim>\<open>muscle\<close>. The store \<open>h\<close> holds the heap objects that exist before
  the call. The printing of the rigid bodies has no effect on the model and is left out.
\<close>

definition buildSpec :: "real \<Rightarrow> tgBuildSpec" where
  "buildSpec ht =
     (let rodConfigA = tgRodInfo (radius (c ht)) (densityA (c ht)) (friction (c ht))
                         (rollFriction (c ht)) (restitution (c ht));
          rodConfigB = tgRodInfo (radius (c ht)) (densityB (c ht)) (friction (c ht))
                         (rollFriction (c ht)) (restitution (c ht));
          muscleConfig = tgBasicActuatorInfo (stiffness (c ht)) (damping (c ht))
                           (pretension (c ht)) (hist (c ht)) (maxTens (c ht))
                           (targetVelocity (c ht))
      in [(''rod'', rodConfigA), (''rodB'', rodConfigB), (''muscle'', muscleConfig)])"

definition setup_model ::
  "('a, 'm, 'w) Library \<Rightarrow> real \<Rightarrow> 'w \<Rightarrow> heap \<Rightarrow> ('a, 'm) VerticalSpineModel
     \<Rightarrow> ('a, 'm) VerticalSpineModel option" where
  "setup_model L ht world h this =
     do {
       (spine, h) \<leftarrow> setup_spine ht (m_segments this) h;
       let spec = buildSpec ht;
       let this = this\<lparr>tgModel := buildInto L spine h spec world (tgModel this)\<rparr>;
       let this = this\<lparr>allMuscles := filter_actuators L (tgModel this)\<rparr>;
       let this = this\<lparr>muscleMap :=
                        mapMuscles L (muscleMap this) (tgModel this) (m_segments this)\<rparr>;
       let this = this\<lparr>tgModel := notifySetup L (tgModel this)\<rparr>;
       let this = this\<lparr>tgModel := tgModel_setup L world (tgModel this)\<rparr>;
       Some this
     }"

text \<open>
  \<^verbatim>\<open>step\<close>, \<^verbatim>\<open>getMuscles\<close> and \<^verbatim>\<open>getAllMuscles\<close> return what the call yields (an
  exception is \<open>Inl\<close>) together with the object after the call. \<open>dt\<close> is a
  \<^verbatim>\<open>double\<close> in the program.
\<close>

definition step ::
  "('a, 'm, 'w) Library \<Rightarrow> real \<Rightarrow> ('a, 'm) VerticalSpineModel
     \<Rightarrow> (error + unit) \<times> ('a, 'm) VerticalSpineModel" where
  "step L dt this =
     (if dt < 0.0 then (Inl (invalid_argument ''dt is not positive''), this)
      else
        (let this = this\<lparr>tgModel := notifyStep L dt (tgModel this)\<rparr>;
             this = this\<lparr>tgModel := tgModel_step L dt (tgModel this)\<rparr>
         in (Inr (), this)))"

definition getMuscles ::
  "string \<Rightarrow> ('a, 'm) VerticalSpineModel \<Rightarrow> (error + 'a list) \<times> ('a, 'm) VerticalSpineModel" where
  "getMuscles key this =
     (case muscleMap this key of
        None \<Rightarrow>
          (Inl (invalid_argument (''Key '' @ [CHR 0x27] @ key @ [CHR 0x27] @ '' not found in muscle map'')),
           this)
      | Some v \<Rightarrow> (Inr v, this))"

definition getAllMuscles ::
  "('a, 'm) VerticalSpineModel \<Rightarrow> 'a list \<times> ('a, 'm) VerticalSpineModel" where
  "getAllMuscles this = (allMuscles this, this)"

text \<open>
  \<open>step\<close> above takes the two library calls as functions that return. \<open>step_raising\<close>
  is \<^verbatim>\<open>step\<close> over library calls that may raise: a call yields its outcome (\<open>Inl\<close> the
  exception) and the engine state it leaves, and as \<^verbatim>\<open>step\<close> has no handler an
  exception of \<^verbatim>\<open>notifyStep\<close> or \<^verbatim>\<open>tgModel::step\<close> leaves \<^verbatim>\<open>step\<close> as it is.
\<close>

definition step_raising ::
  "(real \<Rightarrow> 'm \<Rightarrow> (error + unit) \<times> 'm) \<Rightarrow> (real \<Rightarrow> 'm \<Rightarrow> (error + unit) \<times> 'm) \<Rightarrow> real
     \<Rightarrow> ('a, 'm) VerticalSpineModel \<Rightarrow> (error + unit) \<times> ('a, 'm) VerticalSpineModel" where
  "step_raising notifyStepX tgModel_stepX dt this =
     (if dt < 0.0 then (Inl (invalid_argument ''dt is not positive''), this)
      else
        (case notifyStepX dt (tgModel this) of
           (Inl e, m) \<Rightarrow> (Inl e, this\<lparr>tgModel := m\<rparr>)
         | (Inr u, m) \<Rightarrow>
             (case tgModel_stepX dt m of (r, m') \<Rightarrow> (r, this\<lparr>tgModel := m'\<rparr>))))"

text \<open>
  A client's calls of the operations of the class other than \<^verbatim>\<open>setup\<close>, and the object
  after one call and after a sequence of calls.
\<close>

datatype call = GetMuscles string | GetAllMuscles | Step real

fun after_call ::
  "('a, 'm, 'w) Library \<Rightarrow> call \<Rightarrow> ('a, 'm) VerticalSpineModel \<Rightarrow> ('a, 'm) VerticalSpineModel" where
  "after_call L (GetMuscles key) this = snd (getMuscles key this)"
| "after_call L GetAllMuscles this = snd (getAllMuscles this)"
| "after_call L (Step dt) this = snd (step L dt this)"

fun after_calls ::
  "('a, 'm, 'w) Library \<Rightarrow> call list \<Rightarrow> ('a, 'm) VerticalSpineModel \<Rightarrow> ('a, 'm) VerticalSpineModel" where
  "after_calls L [] this = this"
| "after_calls L (x # xs) this = after_calls L xs (after_call L x this)"

section \<open>Closed forms of the built structure\<close>

text \<open>
  The values that the loops above compute, written out; the lemmas below prove that the
  functions return them. \<open>muscles_between n0 n1 k\<close> are the eight pairs of one pass of
  \<open>addMuscles\<close>, \<open>segment_of vertebra offset j\<close> is the vertebra that pass \<open>j\<close> of
  \<open>addSegments\<close> allocates, \<open>tetra_rods t ht e\<close> is the vertebra that \<open>addNodes\<close> and
  four \<open>addPair\<close> calls with tag \<open>t\<close> make of an empty structure.
\<close>

definition muscles_between :: "btVector3 list \<Rightarrow> btVector3 list \<Rightarrow> nat \<Rightarrow> tgPair list" where
  "muscles_between n0 n1 k =
     [\<lparr>pfrom = n0 ! 0, pto = n1 ! 0, ptags = ''vertical muscle a''\<rparr>,
      \<lparr>pfrom = n0 ! 1, pto = n1 ! 1, ptags = ''vertical muscle b''\<rparr>,
      \<lparr>pfrom = n0 ! 2, pto = n1 ! 2, ptags = ''vertical muscle c''\<rparr>,
      \<lparr>pfrom = n0 ! 3, pto = n1 ! 3, ptags = ''vertical muscle d''\<rparr>,
      \<lparr>pfrom = n0 ! 2, pto = n1 ! 1, ptags = tgString ''saddle muscle seg'' k\<rparr>,
      \<lparr>pfrom = n0 ! 3, pto = n1 ! 1, ptags = tgString ''saddle muscle seg'' k\<rparr>,
      \<lparr>pfrom = n0 ! 2, pto = n1 ! 0, ptags = tgString ''saddle muscle seg'' k\<rparr>,
      \<lparr>pfrom = n0 ! 3, pto = n1 ! 0, ptags = tgString ''saddle muscle seg'' k\<rparr>]"

definition muscles_along :: "heap \<Rightarrow> addr list \<Rightarrow> nat \<Rightarrow> tgPair list" where
  "muscles_along h children i =
     concat (map (\<lambda>j. muscles_between (m_nodes (h ! (children ! (j - 1))))
                        (m_nodes (h ! (children ! j))) (j - 1)) [i ..< length children])"

definition segment_of :: "tgStructure \<Rightarrow> btVector3 \<Rightarrow> nat \<Rightarrow> tgStructure" where
  "segment_of vertebra offset j =
     move_local (smul (real (j + 1)) offset) (addTags (tgString ''segment'' (j + 1)) vertebra)"

definition tetra_rods :: "string \<Rightarrow> real \<Rightarrow> real \<Rightarrow> tgStructure" where
  "tetra_rods t ht e =
     \<lparr>m_tags = [],
      m_nodes = [(10, 0, 0), (- 10, 0, 0), (0, ht, - e / 2), (0, ht, e / 2), (0, ht / 2, 0)],
      m_pairs =
        [\<lparr>pfrom = (10, 0, 0), pto = (0, ht / 2, 0), ptags = t\<rparr>,
         \<lparr>pfrom = (- 10, 0, 0), pto = (0, ht / 2, 0), ptags = t\<rparr>,
         \<lparr>pfrom = (0, ht, - e / 2), pto = (0, ht / 2, 0), ptags = t\<rparr>,
         \<lparr>pfrom = (0, ht, e / 2), pto = (0, ht / 2, 0), ptags = t\<rparr>],
      m_children = []\<rparr>"

definition base_vertebra :: "real \<Rightarrow> tgStructure" where
  "base_vertebra ht =
     addTags (tgString ''segment'' 1) (move_local (0, 2, 0) (tetra_rods ''rodB'' ht 20))"

definition tetra_template :: "real \<Rightarrow> tgStructure" where
  "tetra_template ht = move_local (0, - 6, 0) (tetra_rods ''rod'' ht 20)"

definition spine_heap :: "real \<Rightarrow> nat \<Rightarrow> heap \<Rightarrow> heap" where
  "spine_heap ht N h =
     h @ base_vertebra ht # map (segment_of (tetra_template ht) (0, 7.5, 0)) [1 ..< N]"

definition spine_children :: "nat \<Rightarrow> heap \<Rightarrow> addr list" where
  "spine_children N h = [length h ..< length h + 1 + (N - 1)]"

text \<open>
  A library that records the calls made on it, with the tag itself as the actuator found
  under a tag; the concrete instances below run the model on it.
\<close>

definition echo_library :: "(string, (string \<times> real) list, unit) Library" where
  "echo_library =
     \<lparr>buildInto = (\<lambda>spine h spec world m. m @ [(''buildInto'', real (length h))]),
      find_actuators = (\<lambda>m tag. [tag]),
      filter_actuators = (\<lambda>m. map fst m),
      notifySetup = (\<lambda>m. m @ [(''notifySetup'', 0)]),
      tgModel_setup = (\<lambda>world m. m @ [(''tgModel::setup'', 0)]),
      notifyStep = (\<lambda>dt m. m @ [(''notifyStep'', dt)]),
      tgModel_step = (\<lambda>dt m. m @ [(''tgModel::step'', dt)])\<rparr>"

text \<open>
  A library whose engine state counts the calls made on it and whose actuators are named
  by the count at which they are looked up, so that each build yields other actuators.
\<close>

definition counting_library :: "(nat, nat, unit) Library" where
  "counting_library =
     \<lparr>buildInto = (\<lambda>spine h spec world m. Suc m),
      find_actuators = (\<lambda>m tag. [m]),
      filter_actuators = (\<lambda>m. [m]),
      notifySetup = Suc,
      tgModel_setup = (\<lambda>world. Suc),
      notifyStep = (\<lambda>dt. Suc),
      tgModel_step = (\<lambda>dt. Suc)\<rparr>"

text \<open>
  Library calls for \<open>step_raising\<close>: a notification that returns, and a base-class step
  that rejects every \<open>dt\<close> that is not positive with \<^verbatim>\<open>invalid_argument\<close>.
\<close>

definition counting_notifyStep :: "real \<Rightarrow> nat \<Rightarrow> (error + unit) \<times> nat" where
  "counting_notifyStep dt m = (Inr (), Suc m)"

definition strict_tgModel_step :: "real \<Rightarrow> nat \<Rightarrow> (error + unit) \<times> nat" where
  "strict_tgModel_step dt m =
     (if dt \<le> 0.0 then (Inl (invalid_argument ''dt is not positive''), m) else (Inr (), Suc m))"

section \<open>Facts about the library model\<close>

lemma node_at_simps [simp]:
  "i < length ns \<Longrightarrow> node_at ns i = Some (ns ! i)"
  "\<not> i < length ns \<Longrightarrow> node_at ns i = None"
  by (simp_all add: node_at_def)

lemma deref_simps [simp]:
  "p < length h \<Longrightarrow> deref h p = Some (h ! p)"
  "\<not> p < length h \<Longrightarrow> deref h p = None"
  by (simp_all add: deref_def)

lemma move_work_Nil: "move_work off h [] = Some h"
  by (subst move_work.simps) simp

lemma move_work_childless:
  assumes "p < length h" and "m_children (h ! p) = []"
  shows "move_work off h [p] = Some (h[p := move_local off (h ! p)])"
  using assms by (subst move_work.simps) (simp add: move_work_Nil)

lemma move_childless: "m_children s = [] \<Longrightarrow> move s off h = Some (move_local off s, h)"
  by (simp add: move_def move_work_Nil)

lemma copy_list_Nil: "copy_list h [] = Some ([], h)"
  by (subst copy_list.simps) simp

lemma copy_structure_childless: "m_children s = [] \<Longrightarrow> copy_structure s h = Some (s, h)"
  by (simp add: copy_structure_def copy_list_Nil)

lemma new_copy_childless: "m_children s = [] \<Longrightarrow> new_copy s h = Some (length h, h @ [s])"
  by (simp add: new_copy_def copy_structure_childless new_def)

lemma modify_last: "modify (length h) f (h @ [s]) = Some (h @ [f s])"
  by (simp add: modify_def)

lemma move_at_last:
  "m_children s = [] \<Longrightarrow> move_at (length h) off (h @ [s]) = Some (h @ [move_local off s])"
  by (simp add: move_at_def move_work_childless)

lemma addTags_children [simp]: "m_children (addTags t s) = m_children s"
  by (simp add: addTags_def)

lemma move_local_children [simp]: "m_children (move_local off s) = m_children s"
  by (simp add: move_local_def)

lemma addSegments_loop_closed:
  assumes "m_children vertebra = []"
  shows "addSegments_loop spine vertebra offset n i h =
           Some (spine\<lparr>m_children := m_children spine @ [length h ..< length h + (n - i)]\<rparr>,
                 h @ map (\<lambda>j. move_local (smul (real (j + 1)) offset)
                                 (addTags (tgString ''segment'' (j + 1)) vertebra)) [i ..< n])"
proof (induction k \<equiv> "n - i" arbitrary: i spine h)
  case 0
  then show ?case by (subst addSegments_loop.simps) simp
next
  case (Suc k)
  let ?seg = "\<lambda>j. move_local (smul (real (j + 1)) offset)
                     (addTags (tgString ''segment'' (j + 1)) vertebra)"
  from Suc.hyps(2) have lt: "i < n" and k: "k = n - (i + 1)" by simp_all
  have ih: "addSegments_loop (addChild spine (length h)) vertebra offset n (i + 1) (h @ [?seg i]) =
        Some (addChild spine (length h)\<lparr>m_children := m_children (addChild spine (length h)) @
                 [length (h @ [?seg i]) ..< length (h @ [?seg i]) + (n - (i + 1))]\<rparr>,
              (h @ [?seg i]) @ map ?seg [i + 1 ..< n])"
    by (rule Suc.hyps(1) [OF k])
  have ch: "[length h ..< length h + (n - i)] =
              length h # [length (h @ [?seg i]) ..< length (h @ [?seg i]) + (n - (i + 1))]"
  proof -
    have l: "length (h @ [?seg i]) = Suc (length h)"
      and e: "Suc (length h) + (n - (i + 1)) = length h + (n - i)"
      and b: "length h < length h + (n - i)"
      using lt by simp_all
    show ?thesis by (simp only: l e upt_conv_Cons [OF b])
  qed
  have up: "[i ..< n] = i # [i + 1 ..< n]"
    using lt by (simp add: upt_conv_Cons)
  have step: "addSegments_loop spine vertebra offset n i h =
      addSegments_loop (addChild spine (length h)) vertebra offset n (i + 1) (h @ [?seg i])"
    using lt assms
    by (subst addSegments_loop.simps)
       (simp add: new_copy_childless modify_last move_at_last del: upt_Suc)
  show ?case
    unfolding step ih ch up by (simp add: addChild_def del: upt_Suc)
qed


lemma addMuscles_body_closed:
  assumes "children ! (i - 1) < length h" and "children ! i < length h"
    and "4 \<le> length (m_nodes (h ! (children ! (i - 1))))"
    and "4 \<le> length (m_nodes (h ! (children ! i)))"
  shows "addMuscles_body spine children i h =
           Some (spine\<lparr>m_pairs := m_pairs spine @
                   muscles_between (m_nodes (h ! (children ! (i - 1))))
                     (m_nodes (h ! (children ! i))) (i - 1)\<rparr>)"
proof -
  have "m_nodes (h ! (children ! (i - 1))) \<noteq> []" and "m_nodes (h ! (children ! i)) \<noteq> []"
    using assms by auto
  with assms show ?thesis
    by (simp add: addMuscles_body_def addPairN_def addPairV_def muscles_between_def Let_def)
qed

lemma addMuscles_loop_closed:
  assumes "\<And>j. j < length children \<Longrightarrow>
             children ! j < length h \<and> 4 \<le> length (m_nodes (h ! (children ! j)))"
  shows "addMuscles_loop spine children i h =
           Some (spine\<lparr>m_pairs := m_pairs spine @ muscles_along h children i\<rparr>)"
proof (induction k \<equiv> "length children - i" arbitrary: i spine)
  case 0
  then show ?case
    by (subst addMuscles_loop.simps) (simp add: muscles_along_def)
next
  case (Suc k)
  from Suc.hyps(2) have lt: "i < length children" and k: "k = length children - Suc i"
    by simp_all
  from lt have lt': "i - 1 < length children" by simp
  have body: "addMuscles_body spine children i h =
      Some (spine\<lparr>m_pairs := m_pairs spine @
              muscles_between (m_nodes (h ! (children ! (i - 1))))
                (m_nodes (h ! (children ! i))) (i - 1)\<rparr>)"
    using assms [OF lt] assms [OF lt'] by (intro addMuscles_body_closed) simp_all
  have up: "[i ..< length children] = i # [i + 1 ..< length children]"
    using lt by (simp add: upt_conv_Cons)
  show ?case
    using lt
    by (subst addMuscles_loop.simps)
       (simp add: body Suc.hyps(1) [OF k] muscles_along_def up)
qed


section \<open>The closed form of the spine\<close>

lemma addPairs_addNodes:
  "addPairs (addNodes ht empty_structure e hh) = Some (tetra_rods ''rod'' ht e)"
  by (simp add: addPairs_def addNodes_def addNode_def addPair_def addPairV_def
      empty_structure_def tetra_rods_def c_def)

lemma addPairsB_addNodes:
  "addPairsB (addNodes ht empty_structure e hh) = Some (tetra_rods ''rodB'' ht e)"
  by (simp add: addPairsB_def addNodes_def addNode_def addPair_def addPairV_def
      empty_structure_def tetra_rods_def c_def)

lemma tetra_rods_children [simp]: "m_children (tetra_rods t ht e) = []"
  by (simp add: tetra_rods_def)

lemma tetra_rods_nodes [simp]: "length (m_nodes (tetra_rods t ht e)) = 5"
  by (simp add: tetra_rods_def)

lemma addTags_nodes [simp]: "m_nodes (addTags t s) = m_nodes s"
  by (simp add: addTags_def)

lemma move_local_nodes_length [simp]: "length (m_nodes (move_local off s)) = length (m_nodes s)"
  by (simp add: move_local_def)

lemma base_vertebra_facts [simp]:
  "m_children (base_vertebra ht) = []" "length (m_nodes (base_vertebra ht)) = 5"
  by (simp_all add: base_vertebra_def)

lemma tetra_template_facts [simp]:
  "m_children (tetra_template ht) = []" "length (m_nodes (tetra_template ht)) = 5"
  by (simp_all add: tetra_template_def)

lemma segment_of_facts [simp]:
  "m_children (segment_of v off j) = m_children v"
  "length (m_nodes (segment_of v off j)) = length (m_nodes v)"
  by (simp_all add: segment_of_def)

lemma spine_children_length [simp]: "length (spine_children N h) = 1 + (N - 1)"
  by (simp add: spine_children_def)

lemma spine_heap_length [simp]: "length (spine_heap ht N h) = length h + 1 + (N - 1)"
  by (simp add: spine_heap_def)

lemma spine_children_nth: "j < 1 + (N - 1) \<Longrightarrow> spine_children N h ! j = length h + j"
  unfolding spine_children_def by (simp del: upt_Suc)

lemma spine_heap_nth_0: "spine_heap ht N h ! length h = base_vertebra ht"
  by (simp add: spine_heap_def nth_append)

lemma spine_heap_nth_Suc:
  assumes "1 \<le> j" and "j < N"
  shows "spine_heap ht N h ! (length h + j) = segment_of (tetra_template ht) (0, 7.5, 0) j"
proof -
  from assms obtain j' where j: "j = Suc j'" by (cases j) auto
  with assms have "j' < length [1 ..< N]" by simp
  then have "map (segment_of (tetra_template ht) (0, 7.5, 0)) [1 ..< N] ! j'
      = segment_of (tetra_template ht) (0, 7.5, 0) (1 + j')"
    by (simp del: upt_Suc)
  then show ?thesis
    by (simp add: spine_heap_def nth_append j)
qed

lemma spine_heap_nodes:
  assumes "j < 1 + (N - 1)"
  shows "length (m_nodes (spine_heap ht N h ! (length h + j))) = 5"
proof (cases j)
  case 0
  then show ?thesis by (simp add: spine_heap_nth_0)
next
  case (Suc j')
  with assms have "1 \<le> j" "j < N" by simp_all
  then show ?thesis by (simp add: spine_heap_nth_Suc)
qed

lemma setup_spine_closed:
  "setup_spine ht N h =
     Some (\<lparr>m_tags = [], m_nodes = [],
            m_pairs = muscles_along (spine_heap ht N h) (spine_children N h) 1,
            m_children = spine_children N h\<rparr>,
           spine_heap ht N h)"
proof -
  have seg: "addSegments (addChild empty_structure (length h)) (tetra_template ht) e N
               (h @ [base_vertebra ht]) =
             Some (empty_structure\<lparr>m_children := spine_children N h\<rparr>, spine_heap ht N h)" for e
  proof -
    have "length h # [Suc (length h) ..< Suc (length h) + (N - 1)] = spine_children N h"
      unfolding spine_children_def by (simp add: upt_conv_Cons del: upt_Suc)
    then show ?thesis
      by (simp add: addSegments_def addSegments_loop_closed configSpine_def addChild_def
          empty_structure_def spine_heap_def segment_of_def del: upt_Suc)
  qed
  have mus: "addMuscles (empty_structure\<lparr>m_children := spine_children N h\<rparr>) (spine_heap ht N h) =
      Some (empty_structure\<lparr>m_children := spine_children N h,
              m_pairs := muscles_along (spine_heap ht N h) (spine_children N h) 1\<rparr>)"
  proof -
    have ok: "spine_children N h ! j < length (spine_heap ht N h) \<and>
              4 \<le> length (m_nodes (spine_heap ht N h ! (spine_children N h ! j)))"
      if "j < length (spine_children N h)" for j
      using that by (simp add: spine_children_nth spine_heap_nodes)
    have "addMuscles_loop (empty_structure\<lparr>m_children := spine_children N h\<rparr>)
            (spine_children N h) 1 (spine_heap ht N h) =
          Some (empty_structure\<lparr>m_children := spine_children N h\<rparr>
                  \<lparr>m_pairs := m_pairs (empty_structure\<lparr>m_children := spine_children N h\<rparr>) @
                     muscles_along (spine_heap ht N h) (spine_children N h) 1\<rparr>)"
      by (rule addMuscles_loop_closed) (rule ok)
    then show ?thesis
      by (simp add: addMuscles_def empty_structure_def)
  qed
  show ?thesis
    by (simp add: setup_spine_def addPairs_addNodes addPairsB_addNodes move_childless
        new_copy_childless modify_last seg mus c_def
        base_vertebra_def [symmetric] tetra_template_def [symmetric] del: One_nat_def)
       (simp add: empty_structure_def)
qed


section \<open>Decimal strings and tags\<close>

lemma digit_less_10:
  assumes "d < 10"
  shows "digit d \<in> set ''0123456789''"
  unfolding digit_def using assms by (intro nth_mem) simp

lemma digit_inj:
  assumes "d < 10" and "e < 10" and "digit d = digit e"
  shows "d = e"
proof -
  have "distinct ''0123456789''" by simp
  moreover have "d < length ''0123456789''" "e < length ''0123456789''" using assms by simp_all
  ultimately show ?thesis using assms(3) unfolding digit_def
    by (simp only: nth_eq_iff_index_eq)
qed

lemma decimal_not_Nil [simp]: "decimal n \<noteq> []" "[] \<noteq> decimal n"
  by (subst decimal.simps, simp)+

lemma decimal_chars: "set (decimal n) \<subseteq> set ''0123456789''"
proof (induction n rule: decimal.induct)
  case (1 n)
  show ?case
  proof (cases "n < 10")
    case True
    then show ?thesis using digit_less_10 [of n] by (subst decimal.simps) simp
  next
    case False
    have "n mod 10 < 10" by simp
    then show ?thesis
      using False "1.IH" digit_less_10 [of "n mod 10"] by (subst decimal.simps) simp
  qed
qed

lemma decimal_no_space: "CHR '' '' \<notin> set (decimal n)"
  using decimal_chars [of n] by auto

lemma decimal_inj: "decimal n = decimal m \<Longrightarrow> n = m"
proof (induction n arbitrary: m rule: decimal.induct)
  case (1 n)
  have n: "decimal n = (if n < 10 then [digit n] else decimal (n div 10) @ [digit (n mod 10)])"
    by (rule decimal.simps)
  have m: "decimal m = (if m < 10 then [digit m] else decimal (m div 10) @ [digit (m mod 10)])"
    by (rule decimal.simps)
  show ?case
  proof (cases "n < 10")
    case True
    note n10 = this
    show ?thesis
    proof (cases "m < 10")
      case True
      with n10 "1.prems" n m show ?thesis by (simp add: digit_inj)
    next
      case False
      with n10 "1.prems" n m show ?thesis by simp
    qed
  next
    case False
    note n10 = this
    show ?thesis
    proof (cases "m < 10")
      case True
      with n10 "1.prems" n m show ?thesis by simp
    next
      case False
      with n10 "1.prems" n m
      have a: "decimal (n div 10) = decimal (m div 10)" and b: "digit (n mod 10) = digit (m mod 10)"
        by simp_all
      from "1.IH" [OF n10 a] have "n div 10 = m div 10" .
      moreover from b have "n mod 10 = m mod 10" by (intro digit_inj) simp_all
      ultimately show ?thesis by (metis div_mult_mod_eq)
    qed
  qed
qed

lemma tgString_inj: "tgString s n = tgString s m \<Longrightarrow> n = m"
  by (simp add: tgString_def decimal_inj)

lemma tag_split_no_space:
  "CHR '' '' \<notin> set s \<Longrightarrow> tag_split w s = (if w @ s = [] then [] else [w @ s])"
  by (induction s arbitrary: w) auto

lemma tag_split_segment: "tag_split [] (tgString ''segment'' k) = [tgString ''segment'' k]"
  using decimal_no_space [of k] by (simp add: tgString_def tag_split_no_space)

lemma has_tag_muscle:
  "has_tag ''muscle'' ''vertical muscle a''" "has_tag ''muscle'' ''vertical muscle b''"
  "has_tag ''muscle'' ''vertical muscle c''" "has_tag ''muscle'' ''vertical muscle d''"
  "has_tag ''muscle'' (tgString ''saddle muscle seg'' k)"
  by (simp_all add: has_tag_def tgString_def)

lemma decimal_small:
  "decimal 0 = ''0''" "decimal 1 = ''1''" "decimal (Suc 0) = ''1''" "decimal 2 = ''2''"
  "decimal 3 = ''3''"
  by (simp_all add: decimal.simps digit_def)


section \<open>Vectors and segments\<close>

lemma vadd_simp [simp]: "vadd (x, y, z) (a, b, d) = (x + a, y + b, z + d)"
  by (simp add: vadd_def)

lemma smul_simp [simp]: "smul k (x, y, z) = (k * x, k * y, k * z)"
  by (simp add: smul_def)

lemma spine_children_distinct: "distinct (spine_children N h)"
  by (simp add: spine_children_def del: upt_Suc)

lemma spine_children_0: "spine_children N h ! 0 = length h"
  by (simp add: spine_children_nth)

lemma segment_of_tags:
  "m_tags v = [] \<Longrightarrow> m_tags (segment_of v off j) = [tgString ''segment'' (j + 1)]"
  by (simp add: segment_of_def move_local_def addTags_def tag_split_segment)

lemma segment_of_nodes:
  "m_nodes (segment_of v (0, s, 0) j) = map (\<lambda>n. vadd n (0, s * real (j + 1), 0)) (m_nodes v)"
  by (simp add: segment_of_def move_local_def addTags_def algebra_simps)

lemma segment_of_nodes_Suc:
  "m_nodes (segment_of v (0, s, 0) (Suc j)) = map (\<lambda>n. vadd n (0, s, 0)) (m_nodes (segment_of v (0, s, 0) j))"
  by (auto simp add: segment_of_nodes algebra_simps)

section \<open>Muscles and edge tags\<close>

lemma length_concat_const:
  "(\<And>x. length (f x) = k) \<Longrightarrow> length (concat (map f xs)) = k * length xs"
  by (induction xs) simp_all

lemma muscles_between_length [simp]: "length (muscles_between n0 n1 k) = 8"
  by (simp add: muscles_between_def)

lemma muscles_between_ends:
  assumes "p \<in> set (muscles_between n0 n1 k)"
  shows "\<exists>a b. a < 4 \<and> b < 4 \<and> pfrom p = n0 ! a \<and> pto p = n1 ! b \<and> has_tag ''muscle'' (ptags p)"
proof -
  let ?L = "[(0, 0, ''vertical muscle a''), (1, 1, ''vertical muscle b''),
             (2, 2, ''vertical muscle c''), (3, 3, ''vertical muscle d''),
             (2, 1, tgString ''saddle muscle seg'' k), (3, 1, tgString ''saddle muscle seg'' k),
             (2, 0, tgString ''saddle muscle seg'' k), (3, 0, tgString ''saddle muscle seg'' k)]
            :: (nat \<times> nat \<times> string) list"
  let ?f = "\<lambda>(a, b, t). \<lparr>pfrom = n0 ! a, pto = n1 ! b, ptags = t\<rparr>"
  have eq: "muscles_between n0 n1 k = map ?f ?L"
    by (simp add: muscles_between_def)
  have ok: "\<forall>(a, b, t) \<in> set ?L. a < 4 \<and> b < 4 \<and> has_tag ''muscle'' t"
    by (simp add: has_tag_muscle)
  from assms have "p \<in> ?f ` set ?L"
    by (simp only: eq set_map)
  then obtain x where p: "p = ?f x" and x: "x \<in> set ?L"
    by (rule imageE)
  obtain a b t where abt: "x = (a, b, t)" by (cases x)
  from ok x abt have "a < 4 \<and> b < 4 \<and> has_tag ''muscle'' t" by blast
  with p abt show ?thesis by auto
qed


lemma muscles_along_length: "length (muscles_along h children 1) = 8 * (length children - 1)"
  by (simp add: muscles_along_def length_concat_const del: upt_Suc)

lemma move_pair_tags [simp]: "ptags (move_pair off p) = ptags p"
  by (simp add: move_pair_def)

lemma move_local_pairs [simp]: "m_pairs (move_local off s) = map (move_pair off) (m_pairs s)"
  by (simp add: move_local_def)

lemma addTags_pairs [simp]: "m_pairs (addTags t s) = m_pairs s"
  by (simp add: addTags_def)

lemma muscles_along_tags:
  assumes "p \<in> set (muscles_along h children i)"
  shows "has_tag ''muscle'' (ptags p)"
proof -
  from assms obtain j where
    "p \<in> set (muscles_between (m_nodes (h ! (children ! (j - 1)))) (m_nodes (h ! (children ! j))) (j - 1))"
    unfolding muscles_along_def by auto
  from muscles_between_ends [OF this] show ?thesis by blast
qed

section \<open>The muscle map\<close>

lemma mapMuscles_loop_outside:
  assumes "k \<notin> (\<lambda>j. tgString ''saddle'' (j - 1)) ` {i ..< n}"
  shows "mapMuscles_loop L mm model n i k = mm k"
  using assms
proof (induction d \<equiv> "n - i" arbitrary: i mm)
  case 0
  then show ?case by (subst mapMuscles_loop.simps) simp
next
  case (Suc d)
  from Suc.hyps(2) have lt: "i < n" and d: "d = n - (i + 1)" by simp_all
  from lt have "i \<in> {i ..< n}" by simp
  with Suc.prems have ne: "k \<noteq> tgString ''saddle'' (i - 1)" by blast
  have "{i + 1 ..< n} \<subseteq> {i ..< n}" by auto
  with Suc.prems have "k \<notin> (\<lambda>j. tgString ''saddle'' (j - 1)) ` {i + 1 ..< n}" by blast
  from Suc.hyps(1) [OF d this] ne lt show ?case
    by (subst mapMuscles_loop.simps) simp
qed

lemma mapMuscles_loop_dom:
  "dom (mapMuscles_loop L mm model n i) =
     dom mm \<union> (\<lambda>j. tgString ''saddle'' (j - 1)) ` {i ..< n}"
proof (induction d \<equiv> "n - i" arbitrary: i mm)
  case 0
  then show ?case by (subst mapMuscles_loop.simps) simp
next
  case (Suc d)
  from Suc.hyps(2) have lt: "i < n" and d: "d = n - (i + 1)" by simp_all
  from lt have s: "{i ..< n} = insert i {i + 1 ..< n}" by auto
  from Suc.hyps(1) [OF d] lt show ?case
    by (subst mapMuscles_loop.simps) (simp add: s)
qed

lemma mapMuscles_loop_saddle:
  assumes "1 \<le> i" and "i \<le> j" and "j < n"
  shows "mapMuscles_loop L mm model n i (tgString ''saddle'' (j - 1)) =
           Some (find_actuators L model (tgString ''saddle muscle seg'' (j - 1)))"
  using assms
proof (induction d \<equiv> "n - i" arbitrary: i mm)
  case 0
  then show ?case by simp
next
  case (Suc d)
  from Suc.hyps(2) have lt: "i < n" and d: "d = n - (i + 1)" by simp_all
  let ?mm = "mm(tgString ''saddle'' (i - 1) \<mapsto>
                find_actuators L model (tgString ''saddle muscle seg'' (i - 1)))"
  have step: "mapMuscles_loop L mm model n i = mapMuscles_loop L ?mm model n (i + 1)"
    using lt by (subst mapMuscles_loop.simps) simp
  show ?case
  proof (cases "j = i")
    case True
    have "tgString ''saddle'' (i - 1) \<notin> (\<lambda>j. tgString ''saddle'' (j - 1)) ` {i + 1 ..< n}"
    proof
      assume "tgString ''saddle'' (i - 1) \<in> (\<lambda>j. tgString ''saddle'' (j - 1)) ` {i + 1 ..< n}"
      then obtain j' where "j' \<in> {i + 1 ..< n}"
        and "tgString ''saddle'' (i - 1) = tgString ''saddle'' (j' - 1)"
        by blast
      then have "i < j'" and "i - 1 = j' - 1" by (auto dest: tgString_inj)
      with Suc.prems(1) show False by simp
    qed
    then have "mapMuscles_loop L ?mm model n (i + 1) (tgString ''saddle'' (i - 1)) =
        ?mm (tgString ''saddle'' (i - 1))"
      by (rule mapMuscles_loop_outside)
    with True step show ?thesis by simp
  next
    case False
    with Suc.prems have "1 \<le> i + 1" "i + 1 \<le> j" "j < n" by simp_all
    from Suc.hyps(1) [OF d this] step show ?thesis by simp
  qed
qed

lemma saddle_keys: "(\<lambda>j. tgString ''saddle'' (j - 1)) ` {1 ..< N} = tgString ''saddle'' ` {0 ..< N - 1}"
proof -
  have "(\<lambda>j. j - 1) ` {1 ..< N} = {0 ..< N - 1}"
  proof (rule set_eqI)
    fix x show "x \<in> (\<lambda>j. j - 1) ` {1 ..< N} \<longleftrightarrow> x \<in> {0 ..< N - 1}"
    proof
      assume "x \<in> (\<lambda>j. j - 1) ` {1 ..< N}" then show "x \<in> {0 ..< N - 1}" by auto
    next
      assume "x \<in> {0 ..< N - 1}"
      then have "Suc x \<in> {1 ..< N}" and "x = Suc x - 1" by auto
      then show "x \<in> (\<lambda>j. j - 1) ` {1 ..< N}" by (rule rev_image_eqI)
    qed
  qed
  then have "tgString ''saddle'' ` ((\<lambda>j. j - 1) ` {1 ..< N}) = tgString ''saddle'' ` {0 ..< N - 1}"
    by simp
  then show ?thesis by (simp only: image_image)
qed

lemma saddle_keys_card: "card (tgString ''saddle'' ` {0 ..< n}) = n"
proof -
  have "inj_on (tgString ''saddle'') {0 ..< n}"
    by (rule inj_onI) (rule tgString_inj)
  then show ?thesis by (simp add: card_image)
qed

lemma saddle_not_vertical:
  "tgString ''saddle'' j \<notin> {''vertical a'', ''vertical b'', ''vertical c'', ''vertical d''}"
  by (simp add: tgString_def)

lemma mapMuscles_dom:
  "dom (mapMuscles L Map.empty model N) =
     {''vertical a'', ''vertical b'', ''vertical c'', ''vertical d''} \<union>
     tgString ''saddle'' ` {0 ..< N - 1}"
  by (simp add: mapMuscles_def mapMuscles_loop_dom saddle_keys del: One_nat_def) auto

lemma mapMuscles_card: "card (dom (mapMuscles L Map.empty model N)) = 4 + (N - 1)"
proof -
  have "{''vertical a'', ''vertical b'', ''vertical c'', ''vertical d''} \<inter>
        tgString ''saddle'' ` {0 ..< N - 1} = {}"
    by (auto simp add: tgString_def)
  moreover have "card {''vertical a'', ''vertical b'', ''vertical c'', ''vertical d''} = 4"
    by simp
  ultimately show ?thesis
    unfolding mapMuscles_dom by (simp add: card_Un_disjoint saddle_keys_card)
qed

lemma mapMuscles_vertical:
  "mapMuscles L mm model N ''vertical a'' = Some (find_actuators L model ''vertical muscle a'')"
  "mapMuscles L mm model N ''vertical b'' = Some (find_actuators L model ''vertical muscle b'')"
  "mapMuscles L mm model N ''vertical c'' = Some (find_actuators L model ''vertical muscle c'')"
  "mapMuscles L mm model N ''vertical d'' = Some (find_actuators L model ''vertical muscle d'')"
proof -
  have out: "k \<notin> (\<lambda>j. tgString ''saddle'' (j - 1)) ` {1 ..< N}"
    if "k \<in> {''vertical a'', ''vertical b'', ''vertical c'', ''vertical d''}" for k
    using that saddle_not_vertical by (auto simp only: )
  show "mapMuscles L mm model N ''vertical a'' = Some (find_actuators L model ''vertical muscle a'')"
    unfolding mapMuscles_def Let_def by (subst mapMuscles_loop_outside [OF out]) simp_all
  show "mapMuscles L mm model N ''vertical b'' = Some (find_actuators L model ''vertical muscle b'')"
    unfolding mapMuscles_def Let_def by (subst mapMuscles_loop_outside [OF out]) simp_all
  show "mapMuscles L mm model N ''vertical c'' = Some (find_actuators L model ''vertical muscle c'')"
    unfolding mapMuscles_def Let_def by (subst mapMuscles_loop_outside [OF out]) simp_all
  show "mapMuscles L mm model N ''vertical d'' = Some (find_actuators L model ''vertical muscle d'')"
    unfolding mapMuscles_def Let_def by (subst mapMuscles_loop_outside [OF out]) simp_all
qed

lemma mapMuscles_saddle:
  assumes "1 \<le> i" and "i < N"
  shows "mapMuscles L mm model N (tgString ''saddle'' (i - 1)) =
           Some (find_actuators L model (tgString ''saddle muscle seg'' (i - 1)))"
  unfolding mapMuscles_def Let_def using assms by (intro mapMuscles_loop_saddle) simp_all


lemma setup_model_closed:
  "setup_model L ht world h this =
     Some (this\<lparr>allMuscles := filter_actuators L
                     (buildInto L \<lparr>m_tags = [], m_nodes = [],
                        m_pairs = muscles_along (spine_heap ht (m_segments this) h)
                                    (spine_children (m_segments this) h) 1,
                        m_children = spine_children (m_segments this) h\<rparr>
                        (spine_heap ht (m_segments this) h) (buildSpec ht) world (tgModel this)),
                muscleMap := mapMuscles L (muscleMap this)
                     (buildInto L \<lparr>m_tags = [], m_nodes = [],
                        m_pairs = muscles_along (spine_heap ht (m_segments this) h)
                                    (spine_children (m_segments this) h) 1,
                        m_children = spine_children (m_segments this) h\<rparr>
                        (spine_heap ht (m_segments this) h) (buildSpec ht) world (tgModel this))
                     (m_segments this),
                tgModel := tgModel_setup L world (notifySetup L
                     (buildInto L \<lparr>m_tags = [], m_nodes = [],
                        m_pairs = muscles_along (spine_heap ht (m_segments this) h)
                                    (spine_children (m_segments this) h) 1,
                        m_children = spine_children (m_segments this) h\<rparr>
                        (spine_heap ht (m_segments this) h) (buildSpec ht) world (tgModel this)))\<rparr>)"
  by (simp add: setup_model_def setup_spine_closed Let_def del: One_nat_def)

section \<open>Frames of the operations\<close>

lemma step_frame:
  "muscleMap (snd (step L dt this)) = muscleMap this"
  "allMuscles (snd (step L dt this)) = allMuscles this"
  "m_segments (snd (step L dt this)) = m_segments this"
  by (simp_all add: step_def Let_def)

lemma after_call_frame:
  "muscleMap (after_call L x this) = muscleMap this"
  "allMuscles (after_call L x this) = allMuscles this"
  by (cases x; simp add: step_frame getMuscles_def getAllMuscles_def split: option.split)+

lemma after_calls_frame:
  "muscleMap (after_calls L xs this) = muscleMap this \<and>
   allMuscles (after_calls L xs this) = allMuscles this"
  by (induction xs arbitrary: this) (simp_all add: after_call_frame)

lemma step_is_step_raising:
  "step L dt this =
     step_raising (\<lambda>dt m. (Inr (), notifyStep L dt m)) (\<lambda>dt m. (Inr (), tgModel_step L dt m))
       dt this"
  by (simp add: step_def step_raising_def Let_def)

section \<open>Tags of the built pairs\<close>

lemma muscles_between_tag_strings:
  assumes "p \<in> set (muscles_between n0 n1 k)"
  shows "ptags p \<in> {''vertical muscle a'', ''vertical muscle b'', ''vertical muscle c'',
                     ''vertical muscle d'', tgString ''saddle muscle seg'' k}"
  using assms by (auto simp add: muscles_between_def)

lemma muscles_along_tag_strings:
  assumes "p \<in> set (muscles_along h children 1)"
  shows "ptags p \<in> {''vertical muscle a'', ''vertical muscle b'', ''vertical muscle c'',
                     ''vertical muscle d''}
         \<or> (\<exists>j. j + 1 < length children \<and> ptags p = tgString ''saddle muscle seg'' j)"
proof -
  from assms obtain i where i: "i \<in> set [1 ..< length children]" and
    p: "p \<in> set (muscles_between (m_nodes (h ! (children ! (i - 1)))) (m_nodes (h ! (children ! i))) (i - 1))"
    unfolding muscles_along_def by auto
  from i have "(i - 1) + 1 < length children" by auto
  with muscles_between_tag_strings [OF p] show ?thesis by blast
qed

lemma base_vertebra_pair_tags:
  "map ptags (m_pairs (base_vertebra ht)) = [''rodB'', ''rodB'', ''rodB'', ''rodB'']"
  by (simp add: base_vertebra_def tetra_rods_def)

lemma segment_pair_tags:
  "map ptags (m_pairs (segment_of (tetra_template ht) off j)) = [''rod'', ''rod'', ''rod'', ''rod'']"
  by (simp add: segment_of_def tetra_template_def tetra_rods_def)

section \<open>One vertebra\<close>

text \<open>
  C10. For all arguments \<open>edge_arg\<close> and \<open>height_arg\<close>, \<open>addNodes\<close> appends exactly
  the five nodes \<open>(c.edge/2, 0, 0)\<close>, \<open>(-c.edge/2, 0, 0)\<close>, \<open>(0, c.height, -edge_arg/2)\<close>,
  \<open>(0, c.height, edge_arg/2)\<close>, \<open>(0, c.height/2, 0)\<close> and changes nothing else; the
  height argument has no effect, and the x-coordinates of nodes 0 and 1 come from the
  constant \<open>c.edge = 20\<close>, not from the edge argument.
\<close>

theorem addNodes_five_nodes:
  "addNodes ht vertebra edge_arg height_arg =
     vertebra\<lparr>m_nodes := m_nodes vertebra @
       [(edge (c ht) / 2, 0, 0), (- edge (c ht) / 2, 0, 0),
        (0, height (c ht), - edge_arg / 2), (0, height (c ht), edge_arg / 2),
        (0, height (c ht) / 2, 0)]\<rparr>
   \<and> addNodes ht vertebra edge_arg height_arg = addNodes ht vertebra edge_arg height_arg'
   \<and> edge (c ht) = 20 \<and> height (c ht) = ht"
  by (simp add: addNodes_def addNode_def c_def)

text \<open>
  C5. A vertebra built from an empty structure by \<open>addNodes\<close> and then \<open>addPairs\<close>
  (or \<open>addPairsB\<close>) has exactly 5 nodes and exactly 4 edges; edge \<open>k\<close> joins the outer
  node \<open>k\<close> (for \<open>k = 0, 1, 2, 3\<close>) to the central node 4, and no edge joins two outer
  nodes. The edges are tagged \<^verbatim>\<open>rod\<close> by \<open>addPairs\<close> and \<^verbatim>\<open>rodB\<close> by \<open>addPairsB\<close>.
\<close>

theorem vertebra_is_tetrahedral_cluster:
  "(\<exists>v. addPairs (addNodes ht empty_structure edge_arg height_arg) = Some v
        \<and> length (m_nodes v) = 5 \<and> length (m_pairs v) = 4
        \<and> m_pairs v =
            map (\<lambda>k. \<lparr>pfrom = m_nodes v ! k, pto = m_nodes v ! 4, ptags = ''rod''\<rparr>) [0, 1, 2, 3])
   \<and> (\<exists>v. addPairsB (addNodes ht empty_structure edge_arg height_arg) = Some v
        \<and> length (m_nodes v) = 5 \<and> length (m_pairs v) = 4
        \<and> m_pairs v =
            map (\<lambda>k. \<lparr>pfrom = m_nodes v ! k, pto = m_nodes v ! 4, ptags = ''rodB''\<rparr>) [0, 1, 2, 3])"
  by (simp add: addPairs_def addPairsB_def addNodes_def addNode_def addPair_def addPairV_def
      empty_structure_def)

section \<open>The vertebrae of the spine\<close>

text \<open>
  C1. For every segment count \<open>N \<ge> 1\<close>, the structure that \<open>setup\<close> builds has exactly
  \<open>N\<close> children, at \<open>N\<close> different addresses. Child 0 is the copy of the base vertebra
  \<open>tetraB\<close> (moved by \<open>(0, 2, 0)\<close>) and carries the single tag \<^verbatim>\<open>segment1\<close>. For each
  \<open>i\<close> from 1 to \<open>N - 1\<close>, child \<open>i\<close> is the moving vertebra \<open>tetra\<close> (moved by
  \<open>(0, -6, 0)\<close>) with the tag \<^verbatim>\<open>segment(i+1)\<close> added and translated by \<open>i + 1\<close> times
  the offset \<open>(0, vertebra_separation, 0) = (0, 7.5, 0)\<close>; the nodes of child \<open>i + 1\<close>
  are those of child \<open>i\<close> shifted by exactly \<open>(0, 7.5, 0)\<close>.
\<close>

theorem setup_builds_N_vertebrae:
  assumes "1 \<le> N"
  shows "\<exists>spine H tetraB tetra.
     setup_spine ht N h = Some (spine, H)
   \<and> addPairsB (addNodes ht empty_structure (edge (c ht)) (height (c ht))) = Some tetraB
   \<and> addPairs (addNodes ht empty_structure (edge (c ht)) (height (c ht))) = Some tetra
   \<and> length (m_children spine) = N
   \<and> distinct (m_children spine)
   \<and> (\<exists>b. deref H (m_children spine ! 0) = Some b
          \<and> b = addTags (tgString ''segment'' 1) (move_local (0, 2, 0) tetraB)
          \<and> m_tags b = [''segment1''])
   \<and> vertebra_separation configSpine = 7.5
   \<and> (\<forall>i. 1 \<le> i \<and> i < N \<longrightarrow>
         (\<exists>v. deref H (m_children spine ! i) = Some v
            \<and> v = move_local (smul (real (i + 1)) (0, vertebra_separation configSpine, 0))
                    (addTags (tgString ''segment'' (i + 1)) (move_local (0, - 6, 0) tetra))
            \<and> m_tags v = [tgString ''segment'' (i + 1)]
            \<and> m_nodes v = map (\<lambda>n. vadd n (0, 7.5 * real (i + 1), 0))
                             (m_nodes (move_local (0, - 6, 0) tetra))))
   \<and> (\<forall>i. 1 \<le> i \<and> i + 1 < N \<longrightarrow>
         (\<exists>v w. deref H (m_children spine ! i) = Some v
              \<and> deref H (m_children spine ! (i + 1)) = Some w
              \<and> m_nodes w = map (\<lambda>n. vadd n (0, 7.5, 0)) (m_nodes v)))"
proof -
  let ?spine = "\<lparr>m_tags = [], m_nodes = [],
            m_pairs = muscles_along (spine_heap ht N h) (spine_children N h) 1,
            m_children = spine_children N h\<rparr>"
  let ?H = "spine_heap ht N h"
  let ?seg = "segment_of (tetra_template ht) (0, 7.5, 0)"
  have e: "edge (c ht) = 20" by (simp add: c_def)
  have len: "length (m_children ?spine) = N" using assms by simp
  have at: "deref ?H (m_children ?spine ! i) = Some (?seg i)" if "1 \<le> i" "i < N" for i
    using that by (simp add: spine_children_nth spine_heap_nth_Suc)
  have tt: "m_tags (tetra_template ht) = []"
    by (simp add: tetra_template_def move_local_def tetra_rods_def)
  have base: "deref ?H (m_children ?spine ! 0) = Some (base_vertebra ht)"
    by (simp add: spine_children_0 spine_heap_nth_0)
  have btags: "m_tags (base_vertebra ht) = [''segment1'']"
    by (simp add: base_vertebra_def addTags_def move_local_def tetra_rods_def
        tag_split_segment) (simp add: tgString_def decimal_small del: One_nat_def)
  have segs: "\<forall>i. 1 \<le> i \<and> i < N \<longrightarrow>
         (\<exists>v. deref ?H (m_children ?spine ! i) = Some v
            \<and> v = move_local (smul (real (i + 1)) (0, vertebra_separation configSpine, 0))
                    (addTags (tgString ''segment'' (i + 1)) (move_local (0, - 6, 0) (tetra_rods ''rod'' ht 20)))
            \<and> m_tags v = [tgString ''segment'' (i + 1)]
            \<and> m_nodes v = map (\<lambda>n. vadd n (0, 7.5 * real (i + 1), 0))
                             (m_nodes (move_local (0, - 6, 0) (tetra_rods ''rod'' ht 20))))"
  proof (intro allI impI)
    fix i assume i: "1 \<le> i \<and> i < N"
    have "?seg i = move_local (smul (real (i + 1)) (0, vertebra_separation configSpine, 0))
                    (addTags (tgString ''segment'' (i + 1)) (move_local (0, - 6, 0) (tetra_rods ''rod'' ht 20)))"
      by (simp add: segment_of_def tetra_template_def configSpine_def)
    moreover have "m_tags (?seg i) = [tgString ''segment'' (i + 1)]"
      by (rule segment_of_tags [OF tt])
    moreover have "m_nodes (?seg i) = map (\<lambda>n. vadd n (0, 7.5 * real (i + 1), 0))
                             (m_nodes (move_local (0, - 6, 0) (tetra_rods ''rod'' ht 20)))"
      by (simp only: segment_of_nodes tetra_template_def)
    ultimately show "\<exists>v. deref ?H (m_children ?spine ! i) = Some v
            \<and> v = move_local (smul (real (i + 1)) (0, vertebra_separation configSpine, 0))
                    (addTags (tgString ''segment'' (i + 1)) (move_local (0, - 6, 0) (tetra_rods ''rod'' ht 20)))
            \<and> m_tags v = [tgString ''segment'' (i + 1)]
            \<and> m_nodes v = map (\<lambda>n. vadd n (0, 7.5 * real (i + 1), 0))
                             (m_nodes (move_local (0, - 6, 0) (tetra_rods ''rod'' ht 20)))"
      using at i by simp
  qed
  have spacing: "\<forall>i. 1 \<le> i \<and> i + 1 < N \<longrightarrow>
         (\<exists>v w. deref ?H (m_children ?spine ! i) = Some v
              \<and> deref ?H (m_children ?spine ! (i + 1)) = Some w
              \<and> m_nodes w = map (\<lambda>n. vadd n (0, 7.5, 0)) (m_nodes v))"
  proof (intro allI impI)
    fix i assume i: "1 \<le> i \<and> i + 1 < N"
    then have "deref ?H (m_children ?spine ! i) = Some (?seg i)"
      and "deref ?H (m_children ?spine ! (i + 1)) = Some (?seg (Suc i))"
      using at [of i] at [of "i + 1"] by simp_all
    moreover have "m_nodes (?seg (Suc i)) = map (\<lambda>n. vadd n (0, 7.5, 0)) (m_nodes (?seg i))"
      by (rule segment_of_nodes_Suc)
    ultimately show "\<exists>v w. deref ?H (m_children ?spine ! i) = Some v
              \<and> deref ?H (m_children ?spine ! (i + 1)) = Some w
              \<and> m_nodes w = map (\<lambda>n. vadd n (0, 7.5, 0)) (m_nodes v)"
      by blast
  qed
  have sep: "vertebra_separation configSpine = 7.5" by (simp add: configSpine_def)
  have dist: "distinct (m_children ?spine)" by (simp add: spine_children_distinct)
  have b: "\<exists>b. deref ?H (m_children ?spine ! 0) = Some b
          \<and> b = addTags (tgString ''segment'' 1) (move_local (0, 2, 0) (tetra_rods ''rodB'' ht 20))
          \<and> m_tags b = [''segment1'']"
    using base btags by (simp add: base_vertebra_def)
  show ?thesis
    apply (rule exI [of _ ?spine], rule exI [of _ ?H])
    apply (rule exI [of _ "tetra_rods ''rodB'' ht 20"], rule exI [of _ "tetra_rods ''rod'' ht 20"])
    apply (intro conjI)
            apply (rule setup_spine_closed)
           apply (simp only: e addPairsB_addNodes)
          apply (simp only: e addPairs_addNodes)
         apply (rule len)
        apply (rule dist)
       apply (rule b)
      apply (rule sep)
     apply (rule segs)
    apply (rule spacing)
    done
qed

theorem setup_builds_N_vertebrae_witness:
  "(1::nat) \<le> 3 \<and>
   (\<exists>spine H. setup_spine 14 3 [] = Some (spine, H) \<and> length (m_children spine) = 3
      \<and> (\<exists>b. deref H (m_children spine ! 0) = Some b \<and> m_tags b = [''segment1''])
      \<and> (\<exists>v. deref H (m_children spine ! 2) = Some v \<and> m_tags v = [''segment3'']))"
proof -
  have h: "(1::nat) \<le> 3" by simp
  have d: "tgString ''segment'' (2 + 1) = ''segment3''"
    by (simp add: tgString_def decimal_small)
  from setup_builds_N_vertebrae [OF h, of 14 "[]"]
  obtain spine H where s: "setup_spine 14 3 [] = Some (spine, H)"
    and l: "length (m_children spine) = 3"
    and b: "\<exists>b. deref H (m_children spine ! 0) = Some b \<and> m_tags b = [''segment1'']"
    and v: "\<forall>i. 1 \<le> i \<and> i < 3 \<longrightarrow>
         (\<exists>v. deref H (m_children spine ! i) = Some v \<and> m_tags v = [tgString ''segment'' (i + 1)])"
    by blast
  from v have "\<exists>v. deref H (m_children spine ! 2) = Some v \<and> m_tags v = [tgString ''segment'' (2 + 1)]"
    by (rule allE [of _ 2]) simp
  with d have "\<exists>v. deref H (m_children spine ! 2) = Some v \<and> m_tags v = [''segment3'']"
    by simp
  with s l b h show ?thesis by blast
qed


section \<open>The muscles between the vertebrae\<close>

text \<open>
  C2. Let every child pointer of the spine point to a structure with at least four nodes,
  and let \<open>segs\<close> be the \<open>k\<close> structures pointed to, in order. Then \<open>addMuscles\<close>
  returns the spine with exactly \<open>8 * (k - 1)\<close> pairs appended and nothing else changed:
  for each \<open>i\<close> from 1 to \<open>k - 1\<close>, four vertical muscles joining node \<open>j\<close> of
  segment \<open>i - 1\<close> to node \<open>j\<close> of segment \<open>i\<close> for \<open>j = 0, 1, 2, 3\<close>, and four
  saddle muscles joining nodes 2 and 3 of segment \<open>i - 1\<close> to nodes 1 and 0 of segment
  \<open>i\<close>. Every appended pair runs from a node of one child to a node of the next child,
  and where the child pointers are all different these two children are different
  structures.
\<close>

theorem addMuscles_joins_adjacent_segments:
  assumes "\<forall>a \<in> set (m_children spine). \<exists>s. deref h a = Some s \<and> 4 \<le> length (m_nodes s)"
  shows "\<exists>spine' segs added.
     addMuscles spine h = Some spine'
   \<and> map (deref h) (m_children spine) = map Some segs
   \<and> spine' = spine\<lparr>m_pairs := m_pairs spine @ added\<rparr>
   \<and> length added = 8 * (length segs - 1)
   \<and> added = concat (map (\<lambda>i.
        [\<lparr>pfrom = m_nodes (segs ! (i - 1)) ! 0, pto = m_nodes (segs ! i) ! 0, ptags = ''vertical muscle a''\<rparr>,
         \<lparr>pfrom = m_nodes (segs ! (i - 1)) ! 1, pto = m_nodes (segs ! i) ! 1, ptags = ''vertical muscle b''\<rparr>,
         \<lparr>pfrom = m_nodes (segs ! (i - 1)) ! 2, pto = m_nodes (segs ! i) ! 2, ptags = ''vertical muscle c''\<rparr>,
         \<lparr>pfrom = m_nodes (segs ! (i - 1)) ! 3, pto = m_nodes (segs ! i) ! 3, ptags = ''vertical muscle d''\<rparr>,
         \<lparr>pfrom = m_nodes (segs ! (i - 1)) ! 2, pto = m_nodes (segs ! i) ! 1, ptags = tgString ''saddle muscle seg'' (i - 1)\<rparr>,
         \<lparr>pfrom = m_nodes (segs ! (i - 1)) ! 3, pto = m_nodes (segs ! i) ! 1, ptags = tgString ''saddle muscle seg'' (i - 1)\<rparr>,
         \<lparr>pfrom = m_nodes (segs ! (i - 1)) ! 2, pto = m_nodes (segs ! i) ! 0, ptags = tgString ''saddle muscle seg'' (i - 1)\<rparr>,
         \<lparr>pfrom = m_nodes (segs ! (i - 1)) ! 3, pto = m_nodes (segs ! i) ! 0, ptags = tgString ''saddle muscle seg'' (i - 1)\<rparr>])
        [1 ..< length segs])
   \<and> (\<forall>p \<in> set added. \<exists>i a b. 1 \<le> i \<and> i < length segs \<and> a < 4 \<and> b < 4
          \<and> pfrom p = m_nodes (segs ! (i - 1)) ! a \<and> pto p = m_nodes (segs ! i) ! b)
   \<and> (distinct (m_children spine) \<longrightarrow>
        (\<forall>i. 1 \<le> i \<and> i < length segs \<longrightarrow> m_children spine ! (i - 1) \<noteq> m_children spine ! i))"
proof -
  let ?cs = "m_children spine"
  let ?segs = "map ((!) h) ?cs"
  let ?added = "muscles_along h ?cs 1"
  have valid: "?cs ! j < length h \<and> 4 \<le> length (m_nodes (h ! (?cs ! j)))"
    if "j < length ?cs" for j
  proof -
    from that have "?cs ! j \<in> set ?cs" by simp
    with assms obtain s where "deref h (?cs ! j) = Some s" and "4 \<le> length (m_nodes s)"
      by blast
    then show ?thesis by (auto simp add: deref_def split: if_splits)
  qed
  have run: "addMuscles spine h = Some (spine\<lparr>m_pairs := m_pairs spine @ ?added\<rparr>)"
    unfolding addMuscles_def Let_def by (rule addMuscles_loop_closed) (rule valid)
  have segs: "map (deref h) ?cs = map Some ?segs"
    using valid by (simp add: list_eq_iff_nth_eq)
  have len: "length ?added = 8 * (length ?segs - 1)"
    using muscles_along_length [of h ?cs] by simp
  have nth: "?segs ! j = h ! (?cs ! j)" if "j < length ?cs" for j
    using that by simp
  have form: "?added = concat (map (\<lambda>i. muscles_between (m_nodes (?segs ! (i - 1)))
                 (m_nodes (?segs ! i)) (i - 1)) [1 ..< length ?segs])"
    unfolding muscles_along_def
  proof (rule arg_cong [where f = concat], rule map_cong)
    show "[1 ..< length ?cs] = [1 ..< length ?segs]" by simp
  next
    fix i assume "i \<in> set [1 ..< length ?segs]"
    then have "i < length ?cs" and "i - 1 < length ?cs" by auto
    then show "muscles_between (m_nodes (h ! (?cs ! (i - 1)))) (m_nodes (h ! (?cs ! i))) (i - 1) =
        muscles_between (m_nodes (?segs ! (i - 1))) (m_nodes (?segs ! i)) (i - 1)"
      by (simp only: nth)
  qed
  have ends: "\<forall>p \<in> set ?added. \<exists>i a b. 1 \<le> i \<and> i < length ?segs \<and> a < 4 \<and> b < 4
          \<and> pfrom p = m_nodes (?segs ! (i - 1)) ! a \<and> pto p = m_nodes (?segs ! i) ! b"
  proof
    fix p assume "p \<in> set ?added"
    then obtain i where i: "i \<in> set [1 ..< length ?segs]"
      and p: "p \<in> set (muscles_between (m_nodes (?segs ! (i - 1))) (m_nodes (?segs ! i)) (i - 1))"
      unfolding form by (auto simp del: upt_Suc)
    from muscles_between_ends [OF p] obtain a b where ab: "a < 4" "b < 4"
      "pfrom p = m_nodes (?segs ! (i - 1)) ! a" "pto p = m_nodes (?segs ! i) ! b"
      by blast
    from i have "1 \<le> i" and "i < length ?segs" by auto
    with ab show "\<exists>i a b. 1 \<le> i \<and> i < length ?segs \<and> a < 4 \<and> b < 4
          \<and> pfrom p = m_nodes (?segs ! (i - 1)) ! a \<and> pto p = m_nodes (?segs ! i) ! b"
      by blast
  qed
  have apart: "distinct ?cs \<longrightarrow>
        (\<forall>i. 1 \<le> i \<and> i < length ?segs \<longrightarrow> ?cs ! (i - 1) \<noteq> ?cs ! i)"
    by (auto simp add: nth_eq_iff_index_eq)
  show ?thesis
    apply (rule exI [of _ "spine\<lparr>m_pairs := m_pairs spine @ ?added\<rparr>"])
    apply (rule exI [of _ ?segs], rule exI [of _ ?added])
    apply (intro conjI)
         apply (rule run)
        apply (rule segs)
       apply (rule refl)
      apply (rule len)
      apply (rule form [unfolded muscles_between_def])
     apply (rule ends)
    apply (rule apart)
    done
qed


theorem addMuscles_joins_adjacent_segments_witness:
  "\<exists>spine'. addMuscles \<lparr>m_tags = [], m_nodes = [], m_pairs = [], m_children = [0, 1]\<rparr>
       [tetra_rods ''rodB'' 14 20, move_local (0, 7.5, 0) (tetra_rods ''rod'' 14 20)] = Some spine'
     \<and> length (m_pairs spine') = 8
     \<and> m_pairs spine' ! 4 = \<lparr>pfrom = (0, 14, - 10), pto = (- 10, 7.5, 0), ptags = ''saddle muscle seg0''\<rparr>"
proof -
  let ?spine = "\<lparr>m_tags = [], m_nodes = [], m_pairs = [], m_children = [0, 1]\<rparr>"
  let ?h = "[tetra_rods ''rodB'' 14 20, move_local (0, 7.5, 0) (tetra_rods ''rod'' 14 20)]"
  have pre: "\<forall>a \<in> set (m_children ?spine). \<exists>s. deref ?h a = Some s \<and> 4 \<le> length (m_nodes s)"
    by simp
  have d: "tgString ''saddle muscle seg'' 0 = ''saddle muscle seg0''"
    by (simp add: tgString_def decimal_small)
  from addMuscles_joins_adjacent_segments [OF pre]
  show ?thesis
    by (auto simp add: d tetra_rods_def move_local_def)
qed


section \<open>The tags of the edges\<close>

text \<open>
  C4, as stated: every edge added to the structure graph during the build is tagged
  either \<^verbatim>\<open>rod\<close> or \<^verbatim>\<open>muscle\<close>. It fails for one segment already: the four edges of
  the base vertebra are tagged \<^verbatim>\<open>rodB\<close>, which is neither of the two tags.
\<close>

theorem every_pair_rod_or_muscle_counterexample:
  "setup_spine 14 1 [] =
     Some (\<lparr>m_tags = [], m_nodes = [], m_pairs = [], m_children = [0]\<rparr>,
           [\<lparr>m_tags = [''segment1''],
             m_nodes = [(10, 2, 0), (- 10, 2, 0), (0, 16, - 10), (0, 16, 10), (0, 9, 0)],
             m_pairs = [\<lparr>pfrom = (10, 2, 0), pto = (0, 9, 0), ptags = ''rodB''\<rparr>,
                        \<lparr>pfrom = (- 10, 2, 0), pto = (0, 9, 0), ptags = ''rodB''\<rparr>,
                        \<lparr>pfrom = (0, 16, - 10), pto = (0, 9, 0), ptags = ''rodB''\<rparr>,
                        \<lparr>pfrom = (0, 16, 10), pto = (0, 9, 0), ptags = ''rodB''\<rparr>],
             m_children = []\<rparr>])
   \<and> \<not> has_tag ''rod'' ''rodB'' \<and> \<not> has_tag ''muscle'' ''rodB''
   \<and> ''rodB'' \<noteq> ''rod'' \<and> ''rodB'' \<noteq> ''muscle''"
  by (simp add: setup_spine_closed spine_heap_def spine_children_def muscles_along_def
      base_vertebra_def tetra_rods_def move_local_def move_pair_def addTags_def
      tag_split_segment tgString_def decimal_small has_tag_def)


text \<open>
  C4, amended: in the structure that \<open>setup\<close> builds for \<open>N\<close> segments, the spine
  itself has \<open>8 * (N - 1)\<close> pairs, each with one of the tag strings
  \<^verbatim>\<open>vertical muscle a\<close> to \<^verbatim>\<open>vertical muscle d\<close> or \<^verbatim>\<open>saddle muscle seg<j>\<close> with
  \<open>j + 1 < N\<close>, and so with the tag \<^verbatim>\<open>muscle\<close> among its space-separated tags; the four
  pairs of the base vertebra (child 0) all have the tag string \<^verbatim>\<open>rodB\<close>; and the four
  pairs of every moving vertebra (child \<open>i\<close>, \<open>1 \<le> i < N\<close>) all have the tag string
  \<^verbatim>\<open>rod\<close>.
\<close>

theorem every_pair_rod_rodB_or_muscle:
  "\<exists>spine H.
     setup_spine ht N h = Some (spine, H)
   \<and> length (m_children spine) = 1 + (N - 1)
   \<and> length (m_pairs spine) = 8 * (N - 1)
   \<and> (\<forall>p \<in> set (m_pairs spine).
         has_tag ''muscle'' (ptags p)
         \<and> (ptags p \<in> {''vertical muscle a'', ''vertical muscle b'', ''vertical muscle c'',
                          ''vertical muscle d''}
            \<or> (\<exists>j. j + 1 < N \<and> ptags p = tgString ''saddle muscle seg'' j)))
   \<and> (\<exists>b. deref H (m_children spine ! 0) = Some b
          \<and> map ptags (m_pairs b) = [''rodB'', ''rodB'', ''rodB'', ''rodB''])
   \<and> (\<forall>i. 1 \<le> i \<and> i < N \<longrightarrow>
         (\<exists>v. deref H (m_children spine ! i) = Some v
            \<and> map ptags (m_pairs v) = [''rod'', ''rod'', ''rod'', ''rod'']))"
proof -
  let ?spine = "\<lparr>m_tags = [], m_nodes = [],
            m_pairs = muscles_along (spine_heap ht N h) (spine_children N h) 1,
            m_children = spine_children N h\<rparr>"
  let ?H = "spine_heap ht N h"
  have len: "length (m_children ?spine) = 1 + (N - 1)" by simp
  have cnt: "length (m_pairs ?spine) = 8 * (N - 1)"
    using muscles_along_length [of ?H "spine_children N h"] by simp
  have m: "\<forall>p \<in> set (m_pairs ?spine).
         has_tag ''muscle'' (ptags p)
         \<and> (ptags p \<in> {''vertical muscle a'', ''vertical muscle b'', ''vertical muscle c'',
                          ''vertical muscle d''}
            \<or> (\<exists>j. j + 1 < N \<and> ptags p = tgString ''saddle muscle seg'' j))"
  proof
    fix p assume "p \<in> set (m_pairs ?spine)"
    then have p: "p \<in> set (muscles_along ?H (spine_children N h) 1)" by simp
    have "ptags p \<in> {''vertical muscle a'', ''vertical muscle b'', ''vertical muscle c'',
                          ''vertical muscle d''}
            \<or> (\<exists>j. j + 1 < N \<and> ptags p = tgString ''saddle muscle seg'' j)"
      using muscles_along_tag_strings [OF p]
    proof (elim disjE exE conjE)
      assume "ptags p \<in> {''vertical muscle a'', ''vertical muscle b'', ''vertical muscle c'',
                          ''vertical muscle d''}"
      then show ?thesis by (rule disjI1)
    next
      fix j assume "j + 1 < length (spine_children N h)"
        and t: "ptags p = tgString ''saddle muscle seg'' j"
      then have "j + 1 < N" by simp
      with t have "\<exists>j. j + 1 < N \<and> ptags p = tgString ''saddle muscle seg'' j"
        by (intro exI [of _ j] conjI)
      then show ?thesis by (rule disjI2)
    qed
    with muscles_along_tags [OF p]
    show "has_tag ''muscle'' (ptags p)
         \<and> (ptags p \<in> {''vertical muscle a'', ''vertical muscle b'', ''vertical muscle c'',
                          ''vertical muscle d''}
            \<or> (\<exists>j. j + 1 < N \<and> ptags p = tgString ''saddle muscle seg'' j))"
      by (rule conjI)
  qed
  have b: "\<exists>b. deref ?H (m_children ?spine ! 0) = Some b
          \<and> map ptags (m_pairs b) = [''rodB'', ''rodB'', ''rodB'', ''rodB'']"
    by (simp add: spine_children_0 spine_heap_nth_0 base_vertebra_pair_tags)
  have r: "\<forall>i. 1 \<le> i \<and> i < N \<longrightarrow>
         (\<exists>v. deref ?H (m_children ?spine ! i) = Some v
            \<and> map ptags (m_pairs v) = [''rod'', ''rod'', ''rod'', ''rod''])"
  proof (intro allI impI)
    fix i assume i: "1 \<le> i \<and> i < N"
    then have "deref ?H (m_children ?spine ! i) = Some (segment_of (tetra_template ht) (0, 7.5, 0) i)"
      by (simp add: spine_children_nth spine_heap_nth_Suc)
    then show "\<exists>v. deref ?H (m_children ?spine ! i) = Some v
            \<and> map ptags (m_pairs v) = [''rod'', ''rod'', ''rod'', ''rod'']"
      using segment_pair_tags [of ht "(0, 7.5, 0)" i] by simp
  qed
  show ?thesis
    apply (rule exI [of _ ?spine], rule exI [of _ ?H])
    apply (intro conjI)
         apply (rule setup_spine_closed)
        apply (rule len)
       apply (rule cnt)
      apply (rule m)
     apply (rule b)
    apply (rule r)
    done
qed

theorem every_pair_rod_rodB_or_muscle_witness:
  "\<exists>spine H p b v. setup_spine 14 2 [] = Some (spine, H)
     \<and> length (m_pairs spine) = 8
     \<and> p \<in> set (m_pairs spine) \<and> has_tag ''muscle'' (ptags p)
     \<and> deref H (m_children spine ! 0) = Some b
     \<and> map ptags (m_pairs b) = [''rodB'', ''rodB'', ''rodB'', ''rodB'']
     \<and> deref H (m_children spine ! 1) = Some v
     \<and> map ptags (m_pairs v) = [''rod'', ''rod'', ''rod'', ''rod'']"
proof -
  from every_pair_rod_rodB_or_muscle [of 14 2 "[]"]
  obtain spine H where all: "setup_spine 14 2 [] = Some (spine, H)
   \<and> length (m_children spine) = 1 + (2 - 1)
   \<and> length (m_pairs spine) = 8 * (2 - 1)
   \<and> (\<forall>p \<in> set (m_pairs spine).
         has_tag ''muscle'' (ptags p)
         \<and> (ptags p \<in> {''vertical muscle a'', ''vertical muscle b'', ''vertical muscle c'',
                          ''vertical muscle d''}
            \<or> (\<exists>j. j + 1 < 2 \<and> ptags p = tgString ''saddle muscle seg'' j)))
   \<and> (\<exists>b. deref H (m_children spine ! 0) = Some b
          \<and> map ptags (m_pairs b) = [''rodB'', ''rodB'', ''rodB'', ''rodB''])
   \<and> (\<forall>i. 1 \<le> i \<and> i < 2 \<longrightarrow>
         (\<exists>v. deref H (m_children spine ! i) = Some v
            \<and> map ptags (m_pairs v) = [''rod'', ''rod'', ''rod'', ''rod'']))"
    by (elim exE) (rule that)
  note s = all [THEN conjunct1]
  note rest = all [THEN conjunct2, THEN conjunct2]
  note cnt = rest [THEN conjunct1]
  note m = rest [THEN conjunct2, THEN conjunct1]
  note b = rest [THEN conjunct2, THEN conjunct2, THEN conjunct1]
  note r = rest [THEN conjunct2, THEN conjunct2, THEN conjunct2]
  from cnt have c8: "length (m_pairs spine) = 8" by simp
  then have hd: "hd (m_pairs spine) \<in> set (m_pairs spine)"
    by (intro hd_in_set) auto
  from m [THEN bspec, OF hd] have mus: "has_tag ''muscle'' (ptags (hd (m_pairs spine)))"
    by (rule conjunct1)
  from b obtain bb where bb: "deref H (m_children spine ! 0) = Some bb"
    "map ptags (m_pairs bb) = [''rodB'', ''rodB'', ''rodB'', ''rodB'']"
    by (elim exE conjE) (rule that)
  have i: "(1::nat) \<le> 1 \<and> (1::nat) < 2" by simp
  from r [THEN spec, THEN mp, OF i] obtain vv where vv: "deref H (m_children spine ! 1) = Some vv"
    "map ptags (m_pairs vv) = [''rod'', ''rod'', ''rod'', ''rod'']"
    by (elim exE conjE) (rule that)
  show ?thesis
    apply (rule exI [of _ spine], rule exI [of _ H], rule exI [of _ "hd (m_pairs spine)"])
    apply (rule exI [of _ bb], rule exI [of _ vv])
    apply (intro conjI)
           apply (rule s)
          apply (rule c8)
         apply (rule hd)
        apply (rule mus)
       apply (rule bb(1))
      apply (rule bb(2))
     apply (rule vv(1))
    apply (rule vv(2))
    done
qed


section \<open>The muscle map after setup\<close>

text \<open>
  C3. For every segment count \<open>N \<ge> 2\<close>, \<open>setup\<close> on a freshly constructed model
  returns, and the muscle map then holds exactly the keys \<^verbatim>\<open>vertical a\<close>,
  \<^verbatim>\<open>vertical b\<close>, \<^verbatim>\<open>vertical c\<close>, \<^verbatim>\<open>vertical d\<close> and \<^verbatim>\<open>saddle0\<close> to
  \<^verbatim>\<open>saddle(N-2)\<close>, \<open>N + 3\<close> entries in all. Each key is mapped to the actuators that
  the built model finds under the corresponding tag: \<^verbatim>\<open>vertical muscle a\<close> to
  \<^verbatim>\<open>vertical muscle d\<close>, and \<^verbatim>\<open>saddle muscle seg(i-1)\<close> for \<^verbatim>\<open>saddle(i-1)\<close>,
  \<open>i = 1, \<dots>, N - 1\<close>. The map is written by the one call of \<open>mapMuscles\<close>; as it has
  as many entries as that call makes assignments, no assignment overwrites another.
\<close>

theorem setup_populates_muscle_map:
  assumes "2 \<le> N"
  shows "\<exists>this spine H model.
     setup_spine ht N h = Some (spine, H)
   \<and> model = buildInto L spine H (buildSpec ht) world m0
   \<and> setup_model L ht world h (VerticalSpineModel_new m0 N) = Some this
   \<and> dom (muscleMap this) =
       {''vertical a'', ''vertical b'', ''vertical c'', ''vertical d''} \<union>
       tgString ''saddle'' ` {0 ..< N - 1}
   \<and> card (dom (muscleMap this)) = N + 3
   \<and> muscleMap this ''vertical a'' = Some (find_actuators L model ''vertical muscle a'')
   \<and> muscleMap this ''vertical b'' = Some (find_actuators L model ''vertical muscle b'')
   \<and> muscleMap this ''vertical c'' = Some (find_actuators L model ''vertical muscle c'')
   \<and> muscleMap this ''vertical d'' = Some (find_actuators L model ''vertical muscle d'')
   \<and> (\<forall>i. 1 \<le> i \<and> i < N \<longrightarrow>
         muscleMap this (tgString ''saddle'' (i - 1)) =
           Some (find_actuators L model (tgString ''saddle muscle seg'' (i - 1))))
   \<and> allMuscles this = filter_actuators L model"
proof -
  let ?spine = "\<lparr>m_tags = [], m_nodes = [],
            m_pairs = muscles_along (spine_heap ht N h) (spine_children N h) 1,
            m_children = spine_children N h\<rparr>"
  let ?H = "spine_heap ht N h"
  let ?model = "buildInto L ?spine ?H (buildSpec ht) world m0"
  let ?st = "\<lparr>m_segments = N, allMuscles = filter_actuators L ?model,
                muscleMap = mapMuscles L Map.empty ?model N,
                tgModel = tgModel_setup L world (notifySetup L ?model)\<rparr>"
  have run: "setup_model L ht world h (VerticalSpineModel_new m0 N) = Some ?st"
    by (simp add: setup_model_closed VerticalSpineModel_new_def del: One_nat_def)
  have card: "card (dom (muscleMap ?st)) = N + 3"
    using assms by (simp add: mapMuscles_card)
  have sad: "\<forall>i. 1 \<le> i \<and> i < N \<longrightarrow>
         muscleMap ?st (tgString ''saddle'' (i - 1)) =
           Some (find_actuators L ?model (tgString ''saddle muscle seg'' (i - 1)))"
    by (simp add: mapMuscles_saddle del: One_nat_def)
  show ?thesis
    apply (rule exI [of _ ?st], rule exI [of _ ?spine], rule exI [of _ ?H])
    apply (rule exI [of _ ?model])
    apply (intro conjI)
              apply (rule setup_spine_closed)
             apply (rule refl)
            apply (rule run)
           apply (simp add: mapMuscles_dom)
          apply (rule card)
         apply (simp add: mapMuscles_vertical)
        apply (simp add: mapMuscles_vertical)
       apply (simp add: mapMuscles_vertical)
      apply (simp add: mapMuscles_vertical)
     apply (rule sad)
    apply simp
    done
qed

theorem setup_populates_muscle_map_witness:
  "\<exists>st. setup_model echo_library 14 () [] (VerticalSpineModel_new [] 3) = Some st
     \<and> card (dom (muscleMap st)) = 6
     \<and> muscleMap st ''vertical c'' = Some [''vertical muscle c'']
     \<and> muscleMap st ''saddle1'' = Some [''saddle muscle seg1'']"
proof -
  have h: "(2::nat) \<le> 3" by simp
  have d: "tgString ''saddle'' (2 - 1) = ''saddle1''"
    "tgString ''saddle muscle seg'' (2 - 1) = ''saddle muscle seg1''"
    by (simp_all add: tgString_def decimal_small)
  have f: "find_actuators echo_library m t = [t]" for m t
    by (simp add: echo_library_def)
  from setup_populates_muscle_map [OF h, of 14 "[]" echo_library "()" "[]"]
  obtain st spine H model where all:
    "setup_spine 14 3 [] = Some (spine, H)
   \<and> model = buildInto echo_library spine H (buildSpec 14) () []
   \<and> setup_model echo_library 14 () [] (VerticalSpineModel_new [] 3) = Some st
   \<and> dom (muscleMap st) =
       {''vertical a'', ''vertical b'', ''vertical c'', ''vertical d''} \<union>
       tgString ''saddle'' ` {0 ..< 3 - 1}
   \<and> card (dom (muscleMap st)) = 3 + 3
   \<and> muscleMap st ''vertical a'' = Some (find_actuators echo_library model ''vertical muscle a'')
   \<and> muscleMap st ''vertical b'' = Some (find_actuators echo_library model ''vertical muscle b'')
   \<and> muscleMap st ''vertical c'' = Some (find_actuators echo_library model ''vertical muscle c'')
   \<and> muscleMap st ''vertical d'' = Some (find_actuators echo_library model ''vertical muscle d'')
   \<and> (\<forall>i. 1 \<le> i \<and> i < 3 \<longrightarrow>
         muscleMap st (tgString ''saddle'' (i - 1)) =
           Some (find_actuators echo_library model (tgString ''saddle muscle seg'' (i - 1))))
   \<and> allMuscles st = filter_actuators echo_library model"
    by (elim exE) (rule that)
  note c = all [THEN conjunct2, THEN conjunct2]
  note r = c [THEN conjunct1]
  note k = c [THEN conjunct2, THEN conjunct2, THEN conjunct1]
  note v = c [THEN conjunct2, THEN conjunct2, THEN conjunct2, THEN conjunct2, THEN conjunct2,
      THEN conjunct1]
  note s = c [THEN conjunct2, THEN conjunct2, THEN conjunct2, THEN conjunct2, THEN conjunct2,
      THEN conjunct2, THEN conjunct2, THEN conjunct1]
  have i: "(1::nat) \<le> 2 \<and> (2::nat) < 3" by simp
  have "muscleMap st (tgString ''saddle'' (2 - 1)) =
           Some (find_actuators echo_library model (tgString ''saddle muscle seg'' (2 - 1)))"
    by (rule s [THEN spec, THEN mp, OF i])
  then have s1: "muscleMap st ''saddle1'' = Some [''saddle muscle seg1'']"
    unfolding d f .
  from k have k6: "card (dom (muscleMap st)) = 6" by simp
  from v have vc: "muscleMap st ''vertical c'' = Some [''vertical muscle c'']"
    unfolding f .
  from r k6 vc s1 show ?thesis by (intro exI [of _ st] conjI)
qed


section \<open>The accessors\<close>

text \<open>
  C6, as stated: after \<open>setup\<close> completes, no public operation writes to the muscle
  map. \<^verbatim>\<open>setup\<close> is itself a public operation and assigns \<open>allMuscles\<close> and the
  keys of the muscle map on every call: on a library whose second build yields other
  actuators, a second call of \<open>setup\<close> changes the entry of \<^verbatim>\<open>vertical a\<close> and the
  list \<open>allMuscles\<close>.
\<close>

theorem muscle_map_read_only_counterexample:
  "\<exists>st1 st2.
     setup_model counting_library 14 () [] (VerticalSpineModel_new 0 2) = Some st1
   \<and> setup_model counting_library 14 () [] st1 = Some st2
   \<and> muscleMap st1 ''vertical a'' = Some [1] \<and> muscleMap st2 ''vertical a'' = Some [4]
   \<and> allMuscles st1 = [1] \<and> allMuscles st2 = [4]
   \<and> muscleMap st2 \<noteq> muscleMap st1"
proof -
  let ?new = "VerticalSpineModel_new 0 2 :: (nat, nat) VerticalSpineModel"
  obtain st1 where 1: "setup_model counting_library 14 () [] ?new = Some st1"
    by (simp add: setup_model_closed)
  obtain st2 where 2: "setup_model counting_library 14 () [] st1 = Some st2"
    by (simp add: setup_model_closed)
  from 1 have a1: "allMuscles st1 = [1]" and t1: "tgModel st1 = 3" and n1: "m_segments st1 = 2"
    and m1: "muscleMap st1 ''vertical a'' = Some [1]"
    unfolding setup_model_closed
    by (auto simp add: counting_library_def VerticalSpineModel_new_def mapMuscles_vertical)
  from 2 have a2: "allMuscles st2 = [4]" and m2: "muscleMap st2 ''vertical a'' = Some [4]"
    unfolding setup_model_closed
    by (auto simp add: counting_library_def t1 n1 mapMuscles_vertical)
  from m1 m2 have "muscleMap st2 \<noteq> muscleMap st1" by auto
  with 1 2 a1 a2 m1 m2 show ?thesis by blast
qed

text \<open>
  C6, amended: of the operations of the class, only \<open>setup\<close> writes the muscle map and
  \<open>allMuscles\<close>. \<open>getMuscles\<close> (for every key, found or not) and \<open>getAllMuscles\<close>
  return the object as they received it, and \<open>getAllMuscles\<close> yields the list
  \<open>allMuscles\<close>; \<open>step\<close>, for every \<open>dt\<close>, and every sequence of calls of these three
  operations leave the muscle map and \<open>allMuscles\<close> as they were. \<open>setup\<close> returns and
  assigns to \<open>allMuscles\<close> the actuators of the newly built model and to the muscle map
  the result of \<open>mapMuscles\<close> on that model.
\<close>

theorem only_setup_writes_muscle_map:
  "snd (getMuscles key this) = this
   \<and> snd (getAllMuscles this) = this
   \<and> fst (getAllMuscles this) = allMuscles this
   \<and> muscleMap (snd (step L dt this)) = muscleMap this
   \<and> allMuscles (snd (step L dt this)) = allMuscles this
   \<and> muscleMap (after_calls L xs this) = muscleMap this
   \<and> allMuscles (after_calls L xs this) = allMuscles this
   \<and> (\<exists>st spine H model.
         setup_spine ht (m_segments this) h = Some (spine, H)
       \<and> model = buildInto L spine H (buildSpec ht) world (tgModel this)
       \<and> setup_model L ht world h this = Some st
       \<and> allMuscles st = filter_actuators L model
       \<and> muscleMap st = mapMuscles L (muscleMap this) model (m_segments this))"
proof -
  have acc: "snd (getMuscles key this) = this \<and> snd (getAllMuscles this) = this
      \<and> fst (getAllMuscles this) = allMuscles this"
    by (simp add: getMuscles_def getAllMuscles_def split: option.split)
  let ?spine = "\<lparr>m_tags = [], m_nodes = [],
            m_pairs = muscles_along (spine_heap ht (m_segments this) h)
                        (spine_children (m_segments this) h) 1,
            m_children = spine_children (m_segments this) h\<rparr>"
  let ?H = "spine_heap ht (m_segments this) h"
  have w: "\<exists>st spine H model.
         setup_spine ht (m_segments this) h = Some (spine, H)
       \<and> model = buildInto L spine H (buildSpec ht) world (tgModel this)
       \<and> setup_model L ht world h this = Some st
       \<and> allMuscles st = filter_actuators L model
       \<and> muscleMap st = mapMuscles L (muscleMap this) model (m_segments this)"
    apply (rule exI, rule exI [of _ ?spine], rule exI [of _ ?H], rule exI)
    apply (intro conjI)
        apply (rule setup_spine_closed)
       apply (rule refl)
      apply (rule setup_model_closed)
     apply simp
    apply simp
    done
  from acc step_frame(1,2) [of L dt this] after_calls_frame [of L xs this] w
  show ?thesis by (intro conjI) (erule conjunct1 conjunct2 | assumption | simp)+
qed

theorem only_setup_writes_muscle_map_witness:
  "muscleMap (after_calls counting_library
      [Step 0.01, GetMuscles ''saddle9'', GetAllMuscles, Step (- 1)]
      \<lparr>m_segments = 2, allMuscles = [1], muscleMap = [''vertical a'' \<mapsto> [1]], tgModel = 3\<rparr>)
     ''vertical a'' = Some [1]
   \<and> tgModel (after_calls counting_library
      [Step 0.01, GetMuscles ''saddle9'', GetAllMuscles, Step (- 1)]
      \<lparr>m_segments = 2, allMuscles = [1], muscleMap = [''vertical a'' \<mapsto> [1]], tgModel = 3\<rparr>) = 5"
proof -
  let ?st = "\<lparr>m_segments = 2, allMuscles = [1::nat], muscleMap = [''vertical a'' \<mapsto> [1]],
              tgModel = 3::nat\<rparr>"
  let ?xs = "[Step 0.01, GetMuscles ''saddle9'', GetAllMuscles, Step (- 1)]"
  note all = only_setup_writes_muscle_map [of "''x''" ?st counting_library 0 ?xs 14 "[]" "()"]
  note f = all [THEN conjunct2, THEN conjunct2, THEN conjunct2, THEN conjunct2, THEN conjunct2,
      THEN conjunct1]
  have 1: "muscleMap (after_calls counting_library ?xs ?st) ''vertical a'' = Some [1]"
    unfolding f by simp
  have 2: "tgModel (after_calls counting_library ?xs ?st) = 5"
    by (simp add: step_def getMuscles_def getAllMuscles_def counting_library_def)
  from 1 2 show ?thesis by (rule conjI)
qed

text \<open>
  C9. \<open>getMuscles key\<close> raises \<^verbatim>\<open>invalid_argument\<close> if and only if \<open>key\<close> is not a
  key of the muscle map, with the message \<^verbatim>\<open>Key '<key>' not found in muscle map\<close>;
  otherwise it returns the list stored under the key. The object is unchanged in both
  cases.
\<close>

theorem getMuscles_throws_iff_missing:
  "((\<exists>e. fst (getMuscles key this) = Inl e) \<longleftrightarrow> key \<notin> dom (muscleMap this))
   \<and> (key \<notin> dom (muscleMap this) \<longrightarrow>
        fst (getMuscles key this) =
          Inl (invalid_argument (''Key '' @ [CHR 0x27] @ key @ [CHR 0x27] @ '' not found in muscle map'')))
   \<and> (\<forall>v. muscleMap this key = Some v \<longrightarrow> fst (getMuscles key this) = Inr v)
   \<and> snd (getMuscles key this) = this"
  by (auto simp add: getMuscles_def split: option.split)

theorem getMuscles_throws_iff_missing_witness:
  "fst (getMuscles ''vertical a''
          \<lparr>m_segments = 2, allMuscles = [1, 2 :: nat], muscleMap = [''vertical a'' \<mapsto> [1]],
           tgModel = ()\<rparr>) = Inr [1]
   \<and> fst (getMuscles ''saddle7''
          \<lparr>m_segments = 2, allMuscles = [1, 2 :: nat], muscleMap = [''vertical a'' \<mapsto> [1]],
           tgModel = ()\<rparr>) =
       Inl (invalid_argument (''Key '' @ [CHR 0x27] @ ''saddle7'' @ [CHR 0x27] @ '' not found in muscle map''))"
proof -
  let ?st = "\<lparr>m_segments = 2, allMuscles = [1, 2 :: nat], muscleMap = [''vertical a'' \<mapsto> [1]],
           tgModel = ()\<rparr>"
  have a: "muscleMap ?st ''vertical a'' = Some [1]" by simp
  have b: "''saddle7'' \<notin> dom (muscleMap ?st)" by simp
  from getMuscles_throws_iff_missing [of "''vertical a''" ?st] a
  have 1: "fst (getMuscles ''vertical a'' ?st) = Inr [1]" by blast
  from getMuscles_throws_iff_missing [of "''saddle7''" ?st] b
  have 2: "fst (getMuscles ''saddle7'' ?st) =
       Inl (invalid_argument (''Key '' @ [CHR 0x27] @ ''saddle7'' @ [CHR 0x27] @ '' not found in muscle map''))"
    by blast
  from 1 2 show ?thesis by (rule conjI)
qed

section \<open>One simulation step\<close>



text \<open>
  C8, as stated: \<open>step dt\<close> raises if and only if \<open>dt < 0\<close>, \<open>step 0\<close> does not raise,
  and when it raises no observer has been notified. The else-branch calls the library,
  and \<^verbatim>\<open>step\<close> passes on what the library raises: with a base-class step that
  rejects \<open>dt = 0\<close>, \<open>step 0\<close> raises although \<open>0 < 0\<close> is false, and it does so after
  the notification (the engine state has gone from 3 to 4).
\<close>

theorem step_zero_throws_counterexample:
  "step_raising counting_notifyStep strict_tgModel_step 0
      \<lparr>m_segments = 2, allMuscles = [1::nat], muscleMap = [''vertical a'' \<mapsto> [1]], tgModel = 3\<rparr>
     = (Inl (invalid_argument ''dt is not positive''),
        \<lparr>m_segments = 2, allMuscles = [1], muscleMap = [''vertical a'' \<mapsto> [1]], tgModel = 4\<rparr>)
   \<and> \<not> (0::real) < 0.0"
  by (simp add: step_raising_def counting_notifyStep_def strict_tgModel_step_def)

text \<open>
  C8, amended: the guard of \<open>step\<close> raises \<^verbatim>\<open>invalid_argument("dt is not positive")\<close>
  if and only if \<open>dt < 0\<close>, and then the object is returned as it was, so no observer has
  been notified. For \<open>dt \<ge> 0\<close>, \<open>dt = 0\<close> included, the guard does not raise, and
  \<open>step\<close> raises exactly when \<open>notifyStep\<close> or \<open>tgModel::step\<close> does. On a library
  whose calls return (\<open>step\<close> is \<open>step_raising\<close> on such calls), \<open>step\<close> raises if and
  only if \<open>dt < 0\<close>, and \<open>step 0\<close> returns.
\<close>

theorem step_guard_throws_iff_negative:
  "(dt < 0 \<longrightarrow>
      step_raising nX sX dt this = (Inl (invalid_argument ''dt is not positive''), this))
   \<and> (0 \<le> dt \<longrightarrow>
        ((\<exists>e. fst (step_raising nX sX dt this) = Inl e) \<longleftrightarrow>
           (\<exists>e. fst (nX dt (tgModel this)) = Inl e)
           \<or> (\<exists>e. fst (sX dt (snd (nX dt (tgModel this)))) = Inl e)))
   \<and> step L dt this =
        step_raising (\<lambda>dt m. (Inr (), notifyStep L dt m)) (\<lambda>dt m. (Inr (), tgModel_step L dt m))
          dt this
   \<and> ((\<exists>e. fst (step L dt this) = Inl e) \<longleftrightarrow> dt < 0)
   \<and> fst (step L 0 this) = Inr ()
   \<and> (dt < 0 \<longrightarrow> step L dt this = (Inl (invalid_argument ''dt is not positive''), this))"
proof -
  have a: "dt < 0 \<longrightarrow>
      step_raising nX sX dt this = (Inl (invalid_argument ''dt is not positive''), this)"
    by (simp add: step_raising_def)
  have b: "0 \<le> dt \<longrightarrow>
        ((\<exists>e. fst (step_raising nX sX dt this) = Inl e) \<longleftrightarrow>
           (\<exists>e. fst (nX dt (tgModel this)) = Inl e)
           \<or> (\<exists>e. fst (sX dt (snd (nX dt (tgModel this)))) = Inl e))"
  proof
    assume "0 \<le> dt"
    then have nn: "\<not> dt < 0" by simp
    obtain r1 m1 where n: "nX dt (tgModel this) = (r1, m1)" by (cases "nX dt (tgModel this)")
    obtain r2 m2 where s: "sX dt m1 = (r2, m2)" by (cases "sX dt m1")
    show "(\<exists>e. fst (step_raising nX sX dt this) = Inl e) \<longleftrightarrow>
           (\<exists>e. fst (nX dt (tgModel this)) = Inl e)
           \<or> (\<exists>e. fst (sX dt (snd (nX dt (tgModel this)))) = Inl e)"
      using nn by (cases r1) (simp_all add: step_raising_def n s)
  qed
  have c: "(\<exists>e. fst (step L dt this) = Inl e) \<longleftrightarrow> dt < 0"
    and d: "fst (step L 0 this) = Inr ()"
    and e: "dt < 0 \<longrightarrow> step L dt this = (Inl (invalid_argument ''dt is not positive''), this)"
    by (simp_all add: step_def Let_def)
  from a b step_is_step_raising [of L dt this] c d e show ?thesis by (intro conjI)
qed

theorem step_guard_throws_iff_negative_witness:
  "step_raising counting_notifyStep strict_tgModel_step (- 1)
      \<lparr>m_segments = 2, allMuscles = [1::nat], muscleMap = [''vertical a'' \<mapsto> [1]], tgModel = 3\<rparr>
     = (Inl (invalid_argument ''dt is not positive''),
        \<lparr>m_segments = 2, allMuscles = [1], muscleMap = [''vertical a'' \<mapsto> [1]], tgModel = 3\<rparr>)
   \<and> \<not> (\<exists>e. fst (step_raising counting_notifyStep strict_tgModel_step 0.01
      \<lparr>m_segments = 2, allMuscles = [1::nat], muscleMap = [''vertical a'' \<mapsto> [1]], tgModel = 3\<rparr>)
        = Inl e)"
proof -
  let ?st = "\<lparr>m_segments = 2, allMuscles = [1::nat], muscleMap = [''vertical a'' \<mapsto> [1]],
              tgModel = 3::nat\<rparr>"
  have n: "(- 1 :: real) < 0" and p: "(0::real) \<le> 0.01" by simp_all
  note neg = step_guard_throws_iff_negative
      [of "- 1" counting_notifyStep strict_tgModel_step ?st counting_library, THEN conjunct1,
       THEN mp, OF n]
  note pos = step_guard_throws_iff_negative
      [of "0.01" counting_notifyStep strict_tgModel_step ?st counting_library, THEN conjunct2,
       THEN conjunct1, THEN mp, OF p]
  have "\<not> (\<exists>e. fst (step_raising counting_notifyStep strict_tgModel_step 0.01 ?st) = Inl e)"
    unfolding pos by (simp add: counting_notifyStep_def strict_tgModel_step_def)
  with neg show ?thesis by (rule conjI)
qed


end
